theory Spec2Isabelle
  imports Complex_Main
begin

section \<open>Tensors as nested lists\<close>

text \<open>
  The training and validation scripts compute on PyTorch tensors. A tensor of rank \<open>n\<close> is
  modelled as an \<open>n\<close>-fold nested list, outermost axis first, and its entries as real
  numbers. Where a property depends on the rounding of float arithmetic (the delta encoding
  and its inverse), the rounding is applied explicitly; elsewhere the properties are those
  of the exact arithmetic the scripts write down.
\<close>

subsection \<open>Delta encoding of the DC coefficients\<close>

text \<open>
  The coefficient tensors are float tensors, so every subtraction and addition is followed
  by rounding to the tensor's dtype. The functions of this subsection take that rounding
  as the parameter \<open>rnd\<close>; with the identity the arithmetic is exact.

  \<open>round_f32\<close> is the rounding of \<^verbatim>\<open>torch.float32\<close> (IEEE binary32), the dtype the
  scripts convert the images to with \<^verbatim>\<open>.float()\<close>: round to nearest, ties to
  the even significand, 24 significant bits, the spacing below \<open>2\<^sup>-\<^sup>1\<^sup>2\<^sup>6\<close> fixed at that
  of the smallest normal numbers. Overflow to infinity is not represented; no statement
  below has values of that size.
\<close>

definition round_half_even :: "real \<Rightarrow> int" where
  "round_half_even x =
     (let f = \<lfloor>x\<rfloor>; r = x - of_int f
      in if r < 1/2 then f else if 1/2 < r then f + 1 else if even f then f else f + 1)"

definition f32_ulp :: "real \<Rightarrow> real" where
  "f32_ulp x = 2 powi (max \<lfloor>log 2 \<bar>x\<bar>\<rfloor> (- 126) - 23)"

definition round_f32 :: "real \<Rightarrow> real" where
  "round_f32 x = (if x = 0 then 0 else of_int (round_half_even (x / f32_ulp x)) * f32_ulp x)"

text \<open>
  \<^verbatim>\<open>delta_encode(coefs)\<close> of \<^verbatim>\<open>train2_0602_qf80_8.py\<close> and \<^verbatim>\<open>val2_0602_qf80_8.py\<close>, on one
  block sequence (the last two axes of the tensor, \<open>num_blocks \<times> 64\<close>; the leading axes are
  batch axes that every operation of the function maps over):
  \<^verbatim>\<open>ac = coefs[..., 1:]\<close>, \<^verbatim>\<open>dc = coefs[..., 0:1]\<close>,
  \<^verbatim>\<open>dc = cat([dc[..., 0:1, :], dc[..., 1:, :] - dc[..., :-1, :]], dim=-2)\<close>,
  \<^verbatim>\<open>return cat([dc, ac], dim=-1)\<close>.
\<close>

definition delta_encode :: "(real \<Rightarrow> real) \<Rightarrow> real list list \<Rightarrow> real list list" where
  "delta_encode rnd coefs =
     (let ac = map (drop 1) coefs;
          dc = map (take 1) coefs;
          dc' = take 1 dc @ map2 (map2 (\<lambda>a b. rnd (a - b))) (drop 1 dc) (butlast dc)
      in map2 (@) dc' ac)"

text \<open>
  The decoder of the round-trip property, as the specification words it (the repository
  has no decoder): the cumulative sum along the block axis on the DC channel, each partial
  sum rounded, the AC channels unchanged. \<open>cumsum_rows rnd acc rs\<close> is the running sum
  continued from \<open>acc\<close>.
\<close>

fun cumsum_rows :: "(real \<Rightarrow> real) \<Rightarrow> real list \<Rightarrow> real list list \<Rightarrow> real list list" where
  "cumsum_rows rnd acc [] = []"
| "cumsum_rows rnd acc (r # rs) =
     (let s = map2 (\<lambda>a b. rnd (a + b)) acc r in s # cumsum_rows rnd s rs)"

definition cumsum_blocks :: "(real \<Rightarrow> real) \<Rightarrow> real list list \<Rightarrow> real list list" where
  "cumsum_blocks rnd rows = (case rows of [] \<Rightarrow> [] | r # rs \<Rightarrow> r # cumsum_rows rnd r rs)"

definition prefix_sum_decode :: "(real \<Rightarrow> real) \<Rightarrow> real list list \<Rightarrow> real list list" where
  "prefix_sum_decode rnd enc =
     (let ac = map (drop 1) enc;
          dc = cumsum_blocks rnd (map (take 1) enc)
      in map2 (@) dc ac)"

text \<open>A block sequence of shape \<open>(num_blocks, 64)\<close>.\<close>

definition blocks64 :: "real list list \<Rightarrow> bool" where
  "blocks64 x \<longleftrightarrow> list_all (\<lambda>b. length b = 64) x"

text \<open>
  \<open>dc_exact\<close>: every DC coefficient and every difference of two consecutive DC coefficients
  is a value of the dtype. \<open>dc_integers\<close>: the DC coefficients are whole numbers of
  magnitude at most \<open>2\<^sup>2\<^sup>3\<close>, which is what a quantizer that rounds produces.
\<close>

definition dc_exact :: "(real \<Rightarrow> real) \<Rightarrow> real list list \<Rightarrow> bool" where
  "dc_exact rnd x \<longleftrightarrow>
     (\<forall>i < length x. rnd (x ! i ! 0) = x ! i ! 0)
     \<and> (\<forall>i. 0 < i \<and> i < length x \<longrightarrow>
           rnd (x ! i ! 0 - x ! (i - 1) ! 0) = x ! i ! 0 - x ! (i - 1) ! 0)"

definition dc_integers :: "real list list \<Rightarrow> bool" where
  "dc_integers x \<longleftrightarrow> list_all (\<lambda>b. b ! 0 \<in> \<int> \<and> \<bar>b ! 0\<bar> \<le> 2 ^ 23) x"

text \<open>
  The encoder read block by block (every block after the first, given its predecessor) and
  the exactness condition read the same way. Used in the proofs only.
\<close>

fun delta_tail :: "(real \<Rightarrow> real) \<Rightarrow> real list \<Rightarrow> real list list \<Rightarrow> real list list" where
  "delta_tail rnd prev [] = []"
| "delta_tail rnd prev (c # cs) =
     (map2 (\<lambda>a b. rnd (a - b)) (take 1 c) (take 1 prev) @ drop 1 c) # delta_tail rnd c cs"

fun dc_chain :: "(real \<Rightarrow> real) \<Rightarrow> real list \<Rightarrow> real list list \<Rightarrow> bool" where
  "dc_chain rnd b [] = True"
| "dc_chain rnd b (c # cs) =
     (rnd (c ! 0 - b ! 0) = c ! 0 - b ! 0 \<and> rnd (c ! 0) = c ! 0 \<and> dc_chain rnd c cs)"

text \<open>
  Two block sequences: one with the float32 values 1024, \<open>2\<^sup>-\<^sup>1\<^sup>5\<close> and 5 as DC coefficients
  and zero AC coefficients, one with whole-number DC coefficients.
\<close>

definition f32_counter_blocks :: "real list list" where
  "f32_counter_blocks =
     [1024 # replicate 63 0, (1/32768) # replicate 63 0, 5 # replicate 63 0]"

definition example_blocks :: "real list list" where
  "example_blocks = [map real [0..<64], map (\<lambda>k. 3 * real k + 5) [0..<64],
                     map (\<lambda>k. 2 - real k) [0..<64]]"

subsection \<open>Image batches\<close>

text \<open>
  An image batch has layout \<open>(B, C, H, W)\<close>: a list of images, each a list of channel
  planes, each a list of rows. \<open>has_shape\<close> says that the nested list is the rectangular
  tensor of that shape, \<open>in_unit_range\<close> that every entry lies in \<open>[0, 1]\<close> (the scripts
  divide the loaded bytes by 255).
\<close>

type_synonym plane = "real list list"
type_synonym image = "plane list"
type_synonym batch = "image list"

definition has_shape :: "batch \<Rightarrow> nat \<Rightarrow> nat \<Rightarrow> nat \<Rightarrow> nat \<Rightarrow> bool" where
  "has_shape t B C H W \<longleftrightarrow>
     length t = B \<and>
     list_all (\<lambda>img. length img = C \<and>
       list_all (\<lambda>pl. length pl = H \<and> list_all (\<lambda>row. length row = W) pl) img) t"

definition in_unit_range :: "batch \<Rightarrow> bool" where
  "in_unit_range t \<longleftrightarrow> list_all (list_all (list_all (list_all (\<lambda>v. 0 \<le> v \<and> v \<le> 1)))) t"

definition plane_shape :: "plane \<Rightarrow> nat \<Rightarrow> nat \<Rightarrow> bool" where
  "plane_shape p H W \<longleftrightarrow> length p = H \<and> (\<forall>row \<in> set p. length row = W)"

text \<open>Elementwise binary operation on two planes, and multiplication by a scalar.\<close>

definition plane_map2 :: "(real \<Rightarrow> real \<Rightarrow> real) \<Rightarrow> plane \<Rightarrow> plane \<Rightarrow> plane" where
  "plane_map2 f p q = map2 (map2 f) p q"

definition plane_scale :: "real \<Rightarrow> plane \<Rightarrow> plane" where
  "plane_scale a p = map (map (\<lambda>v. a * v)) p"

definition example_image :: batch where
  "example_image = [[[[0, 1/2], [1, 1/4]], [[1, 1], [0, 0]], [[1/2, 1/2], [1/2, 1/2]]]]"

subsection \<open>Gaussian blur\<close>








subsection \<open>Reinhard tone mapping\<close>

text \<open>
  \<^verbatim>\<open>ReinhardToneMapping.forward(hdr_image, predicted_weights)\<close>:
  \<^verbatim>\<open>luminance = 0.2126 * hdr_image[:, 0] + 0.7152 * hdr_image[:, 1] + 0.0722 * hdr_image[:, 2]\<close>,
  \<^verbatim>\<open>ldr_luminance = luminance / (1 + luminance / (weights + 1e-6))\<close>,
  \<^verbatim>\<open>scale_factor = ldr_luminance / (luminance + 1e-6)\<close>,
  \<^verbatim>\<open>ldr_image = hdr_image * scale_factor.unsqueeze(1)\<close>, multiplied by \<^verbatim>\<open>white_point\<close> when
  that is not 1.0. The training loop passes one scalar weight (\<^verbatim>\<open>weights[0]\<close>) per image.
  Indexing channel 0, 1 or 2 of a tensor with fewer than three channels raises
  \<^verbatim>\<open>IndexError\<close>: the value \<open>None\<close>.
\<close>

definition luminance_of :: "image \<Rightarrow> plane" where
  "luminance_of img =
     plane_map2 (+) (plane_map2 (+) (plane_scale 0.2126 (img ! 0)) (plane_scale 0.7152 (img ! 1)))
                    (plane_scale 0.0722 (img ! 2))"

definition reinhard_scale_factor :: "real \<Rightarrow> image \<Rightarrow> plane" where
  "reinhard_scale_factor weights img =
     (let luminance = luminance_of img;
          ldr_luminance = map (map (\<lambda>L. L / (1 + L / (weights + 0.000001)))) luminance
      in plane_map2 (\<lambda>l L. l / (L + 0.000001)) ldr_luminance luminance)"

definition ReinhardToneMapping_forward :: "real \<Rightarrow> batch \<Rightarrow> real \<Rightarrow> batch option" where
  "ReinhardToneMapping_forward white_point hdr_image predicted_weights =
     (if list_ex (\<lambda>img. length img < 3) hdr_image then None
      else let weights = predicted_weights;
               ldr_image = map (\<lambda>img. map (\<lambda>pl.
                              plane_map2 (*) pl (reinhard_scale_factor weights img)) img) hdr_image;
               ldr_image = (if white_point \<noteq> 1.0
                            then map (map (map (map (\<lambda>v. v * white_point)))) ldr_image
                            else ldr_image)
           in Some ldr_image)"

section \<open>Control networks\<close>

text \<open>
  \<^verbatim>\<open>DownscalingNetwork.forward\<close> of \<^verbatim>\<open>train.py\<close>: ResNet-101 and the layers of
  \<^verbatim>\<open>extended_fc\<close> up to its last \<^verbatim>\<open>Linear(128, 1)\<close> give one number per image (the
  parameter \<open>pre\<close>: the layers are learnt, so any function), the closing \<^verbatim>\<open>Tanh\<close> and
  \<^verbatim>\<open>x = (x + 1) / 2 * 3 + 1\<close> follow.
\<close>

definition DownscalingNetwork_forward :: "('img \<Rightarrow> real list) \<Rightarrow> 'img \<Rightarrow> real list" where
  "DownscalingNetwork_forward pre x = map (\<lambda>z. (tanh z + 1) / 2 * 3 + 1) (pre x)"

text \<open>
  \<^verbatim>\<open>DynamicLuminanceWeightNetwork.forward\<close> of \<^verbatim>\<open>train2_0602_qf80_8.py\<close>: upsampling,
  ResNet-18 and the head up to \<^verbatim>\<open>fc4 = Linear(64, 2)\<close> give two numbers per image (the
  parameter \<open>fc4_out\<close>), then \<^verbatim>\<open>x[:, 0] = sigmoid(x[:, 0]) * 0.5 + 0.5\<close> and the same for
  \<^verbatim>\<open>x[:, 1]\<close>. \<open>sigmoid\<close> is \<^verbatim>\<open>torch.sigmoid\<close>.
\<close>

definition sigmoid :: "real \<Rightarrow> real" where
  "sigmoid x = 1 / (1 + exp (- x))"

definition DynamicLuminanceWeightNetwork_forward ::
  "('img \<Rightarrow> (real \<times> real) list) \<Rightarrow> 'img \<Rightarrow> (real \<times> real) list" where
  "DynamicLuminanceWeightNetwork_forward fc4_out x =
     map (\<lambda>(x0, x1). (sigmoid x0 * 0.5 + 0.5, sigmoid x1 * 0.5 + 0.5)) (fc4_out x)"

text \<open>
  The training loop's
  \<^verbatim>\<open>dynamic_luminance_weights = torch.clamp(dynamic_luminance_weights, min=0, max=5)\<close>.
\<close>

definition clamp :: "real \<Rightarrow> real \<Rightarrow> real \<Rightarrow> real" where
  "clamp v lo hi = min (max v lo) hi"

definition clamp_weights :: "(real \<times> real) list \<Rightarrow> (real \<times> real) list" where
  "clamp_weights ws = map (\<lambda>(a, b). (clamp a 0 5, clamp b 0 5)) ws"


section \<open>Bit-rate estimate\<close>

text \<open>
  The feature transform in front of the bit-rate estimator, on the zigzag-ordered blocks of
  shape \<open>(b, c, n, co)\<close>: \<^verbatim>\<open>rearrange(blocks, "b c n co -> b (c n) co")\<close>,
  \<^verbatim>\<open>(torch.log(torch.abs(blocks) + 1)) / (torch.log(torch.Tensor([2])))\<close>,
  \<^verbatim>\<open>rearrange(blocks, "b cn co -> (b cn) co")\<close>; the result is the argument of
  \<^verbatim>\<open>bitEstimator\<close>.
\<close>

definition log_scale :: "real \<Rightarrow> real" where
  "log_scale c = ln (\<bar>c\<bar> + 1) / ln 2"

definition estimator_features :: "real list list list list \<Rightarrow> real list list" where
  "estimator_features blocks =
     (let blocks = map concat blocks;
          blocks = map (map (map log_scale)) blocks
      in concat blocks)"

text \<open>
  The bpp estimate from the estimator's output \<^verbatim>\<open>pred_code_len\<close> (one code length per
  block, shape \<open>(b * p1, 1)\<close>) and the shape \<open>(B, C, H, W)\<close> of \<^verbatim>\<open>quantized_dct\<close>:
  \<^verbatim>\<open>rearrange(pred_code_len, "(b p1) 1 -> b p1", b=quantized_dct.shape[0])\<close>, which raises
  when the length is not a multiple of \<open>b\<close>; \<^verbatim>\<open>torch.sum(bpp_loss, dim=1)\<close>;
  \<^verbatim>\<open>torch.mean(bpp_loss)\<close>; division by \<^verbatim>\<open>shape[1] * shape[2] * shape[3]\<close>.
\<close>

definition rearrange_b_p1 :: "nat \<Rightarrow> real list \<Rightarrow> real list list option" where
  "rearrange_b_p1 b xs =
     (if b = 0 \<or> length xs mod b \<noteq> 0 then None
      else let p1 = length xs div b in Some (map (\<lambda>i. take p1 (drop (i * p1) xs)) [0..<b]))"

definition mean :: "real list \<Rightarrow> real" where
  "mean xs = sum_list xs / real (length xs)"

definition bpp_estimate :: "nat \<times> nat \<times> nat \<times> nat \<Rightarrow> real list \<Rightarrow> real option" where
  "bpp_estimate shape pred_code_len =
     (case shape of (B, C, H, W) \<Rightarrow>
        (case rearrange_b_p1 B pred_code_len of
           None \<Rightarrow> None
         | Some bpp_loss \<Rightarrow>
             let bpp_loss = map sum_list bpp_loss;
                 bpp_loss = mean bpp_loss;
                 bpp_loss = bpp_loss / real (C * H * W)
             in Some bpp_loss))"


section \<open>The training step\<close>

subsection \<open>Losses\<close>

text \<open>
  Both loops scale the detection loss in place: \<^verbatim>\<open>if RANK != -1: loss *= WORLD_SIZE\<close>,
  \<^verbatim>\<open>if opt.quad: loss *= 4.0\<close>. Then \<^verbatim>\<open>train.py\<close> sets
  \<^verbatim>\<open>bpp_loss = 1 / downscaling_factor\<close> (one entry per image of the batch) and
  \<^verbatim>\<open>total_loss = 40 * bpp_loss + loss\<close>, and \<^verbatim>\<open>train2_0602_qf80_8.py\<close> sets
  \<^verbatim>\<open>total_loss = 1 * bpp_loss + 8 * loss\<close> with the scalar bpp estimate.
\<close>

definition scale_detection_loss :: "int \<Rightarrow> int \<Rightarrow> bool \<Rightarrow> real \<Rightarrow> real" where
  "scale_detection_loss RANK WORLD_SIZE quad loss =
     (let loss = (if RANK \<noteq> - 1 then loss * real_of_int WORLD_SIZE else loss);
          loss = (if quad then loss * 4.0 else loss)
      in loss)"

record step_losses =
  dfm_bpp_loss :: "real list"
  dfm_loss :: real
  dfm_total_loss :: "real list"

definition train_losses :: "int \<Rightarrow> int \<Rightarrow> bool \<Rightarrow> real list \<Rightarrow> real \<Rightarrow> step_losses" where
  "train_losses RANK WORLD_SIZE quad downscaling_factor loss0 =
     (let bpp_loss = map (\<lambda>f. 1 / f) downscaling_factor;
          loss = scale_detection_loss RANK WORLD_SIZE quad loss0;
          total_loss = map (\<lambda>b. 40 * b + loss) bpp_loss
      in \<lparr>dfm_bpp_loss = bpp_loss, dfm_loss = loss, dfm_total_loss = total_loss\<rparr>)"

record step_losses2 =
  dln_bpp_loss :: real
  dln_loss :: real
  dln_total_loss :: real

definition train2_losses :: "int \<Rightarrow> int \<Rightarrow> bool \<Rightarrow> real \<Rightarrow> real \<Rightarrow> step_losses2" where
  "train2_losses RANK WORLD_SIZE quad bpp loss0 =
     (let loss = scale_detection_loss RANK WORLD_SIZE quad loss0;
          total_loss = 1 * bpp + 8 * loss
      in \<lparr>dln_bpp_loss = bpp, dln_loss = loss, dln_total_loss = total_loss\<rparr>)"

subsection \<open>Backward passes and optimizer steps\<close>

text \<open>
  What one iteration of the batch loop does to the two networks after the forward pass, as
  the sequence of framework calls it makes. \<open>Backward l scaled retain\<close> is a call of
  \<^verbatim>\<open>.backward()\<close> on loss \<open>l\<close>, \<open>scaled\<close> when the loss went through
  \<^verbatim>\<open>scaler.scale\<close>, \<open>retain\<close> for \<^verbatim>\<open>retain_graph=True\<close>; \<open>OptimizerStep n via_scaler\<close>
  is \<^verbatim>\<open>scaler.step(optimizer)\<close> when \<open>via_scaler\<close> and \<^verbatim>\<open>optimizer.step()\<close> otherwise.
\<close>

datatype net = Detector | ControlNetwork

datatype loss_kind = CombinedLoss | DetectionLoss

datatype op =
    Backward loss_kind bool bool
  | Unscale net
  | ClipGradNorm net
  | OptimizerStep net bool
  | ScalerUpdate
  | ZeroGrad net
  | EmaUpdate

text \<open>
  \<^verbatim>\<open>train.py\<close>: \<^verbatim>\<open>total_loss.backward(retain_graph=True)\<close>, then
  \<^verbatim>\<open>scaler.scale(loss).backward()\<close>, then, \<^verbatim>\<open>if ni - last_opt_step >= accumulate\<close>:
  \<^verbatim>\<open>scaler.unscale_(optimizer)\<close>, \<^verbatim>\<open>clip_grad_norm_(model.parameters())\<close>,
  \<^verbatim>\<open>dfm_optimizer.step()\<close>, \<^verbatim>\<open>dfm_optimizer.zero_grad()\<close>, \<^verbatim>\<open>scaler.step(optimizer)\<close>,
  \<^verbatim>\<open>scaler.update()\<close>, \<^verbatim>\<open>optimizer.zero_grad()\<close>, \<^verbatim>\<open>ema.update(...)\<close> if there is an
  EMA, \<^verbatim>\<open>last_opt_step = ni\<close>. The result is the calls and the new \<^verbatim>\<open>last_opt_step\<close>.
  \<^verbatim>\<open>accumulate\<close> is a float during warm-up, hence a real.
\<close>

definition train_step_ops :: "int \<Rightarrow> int \<Rightarrow> real \<Rightarrow> bool \<Rightarrow> op list \<times> int" where
  "train_step_ops ni last_opt_step accumulate ema =
     (let backward = [Backward CombinedLoss False True, Backward DetectionLoss True False]
      in if real_of_int (ni - last_opt_step) \<ge> accumulate
         then (backward @
               [Unscale Detector, ClipGradNorm Detector,
                OptimizerStep ControlNetwork False, ZeroGrad ControlNetwork,
                OptimizerStep Detector True, ScalerUpdate, ZeroGrad Detector] @
               (if ema then [EmaUpdate] else []), ni)
         else (backward, last_opt_step))"

text \<open>
  \<^verbatim>\<open>train2_0602_qf80_8.py\<close>: \<^verbatim>\<open>scaler.scale(total_loss).backward()\<close>, then, under the same
  condition: \<^verbatim>\<open>scaler.unscale_\<close> of both optimizers, \<^verbatim>\<open>clip_grad_norm_\<close> of the control
  network and of the detector, \<^verbatim>\<open>scaler.step(dln_optimizer)\<close>, \<^verbatim>\<open>scaler.update()\<close>,
  \<^verbatim>\<open>scaler.step(optimizer)\<close>, \<^verbatim>\<open>scaler.update()\<close>, both \<^verbatim>\<open>zero_grad()\<close>, the EMA update.
\<close>

definition train2_step_ops :: "int \<Rightarrow> int \<Rightarrow> real \<Rightarrow> bool \<Rightarrow> op list \<times> int" where
  "train2_step_ops ni last_opt_step accumulate ema =
     (let backward = [Backward CombinedLoss True False]
      in if real_of_int (ni - last_opt_step) \<ge> accumulate
         then (backward @
               [Unscale Detector, Unscale ControlNetwork,
                ClipGradNorm ControlNetwork, ClipGradNorm Detector,
                OptimizerStep ControlNetwork True, ScalerUpdate,
                OptimizerStep Detector True, ScalerUpdate,
                ZeroGrad ControlNetwork, ZeroGrad Detector] @
               (if ema then [EmaUpdate] else []), ni)
         else (backward, last_opt_step))"






subsection \<open>Parameters and what the framework calls do to them\<close>

text \<open>
  A parameter tensor has a value, the flag \<^verbatim>\<open>requires_grad\<close> and the field \<^verbatim>\<open>.grad\<close>
  (\<open>None\<close> until a backward pass stores one). The parameters of a run are keyed by the
  component that owns them and an index. The detector's optimizer is built from the
  detector's parameters, the control network's optimizer from
  \<^verbatim>\<open>downscaling_network.parameters()\<close> or \<^verbatim>\<open>dynamic_luminance_network.parameters()\<close>, that
  is head and feature extractor alike; the bit-rate estimator is given to no optimizer.
  Buffers such as the running statistics of batch normalisation are not parameters and are
  not part of the store.
\<close>

datatype owner = DetectorParam | ControlHead | ControlBackbone | BitEstimator

type_synonym pkey = "owner \<times> nat"

record 'v param =
  pvalue :: 'v
  requires_grad :: bool
  grad :: "'v option"

type_synonym 'v store = "pkey \<Rightarrow> 'v param option"

definition in_optimizer :: "net \<Rightarrow> pkey \<Rightarrow> bool" where
  "in_optimizer n k =
     (case n of Detector \<Rightarrow> fst k = DetectorParam
              | ControlNetwork \<Rightarrow> fst k = ControlHead \<or> fst k = ControlBackbone)"

text \<open>
  The gradient scaler keeps a stage per optimizer since its last \<^verbatim>\<open>update()\<close>:
  \<^verbatim>\<open>unscale_\<close> raises when the optimizer is already unscaled or stepped, \<^verbatim>\<open>step\<close> raises
  when it is already stepped and unscales first when \<^verbatim>\<open>unscale_\<close> has not been called,
  \<^verbatim>\<open>update()\<close> raises when no optimizer was unscaled or stepped, and otherwise resets
  every stage and moves to the next scale. A disabled scaler (no AMP) passes everything
  through.
\<close>

datatype stage = Ready | Unscaled | Stepped

datatype scaler_error = UnscaleTwice | UnscaleAfterStep | StepTwice | NoInfChecks

text \<open>
  The numbers the framework computes are left open: the gradient a backward pass finds for
  a parameter (\<open>None\<close> when the loss does not reach it; for a scaled loss it depends on the
  current scale, named by its generation), how gradients add up, unscaling by the current
  scale, clipping, the optimizer's update rule, whether the scaler found an overflow among
  an optimizer's gradients (then \<^verbatim>\<open>scaler.step\<close> skips the step), and whether
  \<^verbatim>\<open>zero_grad()\<close> sets gradients to \<open>None\<close> or to zero. What is fixed is PyTorch's contract:
  a backward pass stores gradients only in parameters with \<^verbatim>\<open>requires_grad\<close>, and an
  optimizer skips every parameter whose \<^verbatim>\<open>.grad\<close> is \<open>None\<close>.
\<close>

record 'v autograd =
  grad_of :: "loss_kind \<Rightarrow> nat option \<Rightarrow> pkey \<Rightarrow> 'v option"
  accum :: "'v \<Rightarrow> 'v \<Rightarrow> 'v"
  unscaled :: "nat \<Rightarrow> 'v \<Rightarrow> 'v"
  clipped :: "net \<Rightarrow> 'v \<Rightarrow> 'v"
  update :: "net \<Rightarrow> pkey \<Rightarrow> 'v \<Rightarrow> 'v \<Rightarrow> 'v"
  found_inf :: "net \<Rightarrow> nat \<Rightarrow> bool"
  scaler_enabled :: bool
  set_to_none :: bool
  zero_like :: "'v \<Rightarrow> 'v"

record 'v train_state =
  params :: "'v store"
  stage_of :: "net \<Rightarrow> stage"
  scale_gen :: nat

definition accumulate_grad :: "'v autograd \<Rightarrow> 'v option \<Rightarrow> 'v option \<Rightarrow> 'v option" where
  "accumulate_grad ag old new =
     (case new of None \<Rightarrow> old
      | Some d \<Rightarrow> (case old of None \<Rightarrow> Some d | Some g \<Rightarrow> Some (accum ag g d)))"

definition loss_scale :: "'v autograd \<Rightarrow> 'v train_state \<Rightarrow> bool \<Rightarrow> nat option" where
  "loss_scale ag st scaled = (if scaled \<and> scaler_enabled ag then Some (scale_gen st) else None)"

definition backward_grads :: "'v autograd \<Rightarrow> loss_kind \<Rightarrow> nat option \<Rightarrow> 'v store \<Rightarrow> 'v store" where
  "backward_grads ag l sc s =
     (\<lambda>k. map_option (\<lambda>p. if requires_grad p
                            then p\<lparr>grad := accumulate_grad ag (grad p) (grad_of ag l sc k)\<rparr>
                            else p) (s k))"

definition unscale_grads :: "'v autograd \<Rightarrow> nat \<Rightarrow> net \<Rightarrow> 'v store \<Rightarrow> 'v store" where
  "unscale_grads ag gen n s =
     (\<lambda>k. map_option (\<lambda>p. if in_optimizer n k
                            then p\<lparr>grad := map_option (unscaled ag gen) (grad p)\<rparr> else p) (s k))"

definition clip_grads :: "'v autograd \<Rightarrow> net \<Rightarrow> 'v store \<Rightarrow> 'v store" where
  "clip_grads ag n s =
     (\<lambda>k. map_option (\<lambda>p. if in_optimizer n k
                            then p\<lparr>grad := map_option (clipped ag n) (grad p)\<rparr> else p) (s k))"

definition optimizer_step :: "'v autograd \<Rightarrow> net \<Rightarrow> 'v store \<Rightarrow> 'v store" where
  "optimizer_step ag n s =
     (\<lambda>k. map_option (\<lambda>p. if in_optimizer n k
                            then (case grad p of None \<Rightarrow> p
                                  | Some g \<Rightarrow> p\<lparr>pvalue := update ag n k (pvalue p) g\<rparr>)
                            else p) (s k))"

definition zero_grads :: "'v autograd \<Rightarrow> net \<Rightarrow> 'v store \<Rightarrow> 'v store" where
  "zero_grads ag n s =
     (\<lambda>k. map_option (\<lambda>p. if in_optimizer n k
                            then p\<lparr>grad := (if set_to_none ag then None
                                             else map_option (zero_like ag) (grad p))\<rparr>
                            else p) (s k))"

fun exec_op :: "'v autograd \<Rightarrow> op \<Rightarrow> 'v train_state \<Rightarrow> scaler_error + 'v train_state" where
  "exec_op ag (Backward l scaled retain) st =
     Inr (st\<lparr>params := backward_grads ag l (loss_scale ag st scaled) (params st)\<rparr>)"
| "exec_op ag (Unscale n) st =
     (if \<not> scaler_enabled ag then Inr st
      else case stage_of st n of
             Unscaled \<Rightarrow> Inl UnscaleTwice
           | Stepped \<Rightarrow> Inl UnscaleAfterStep
           | Ready \<Rightarrow> Inr (st\<lparr>params := unscale_grads ag (scale_gen st) n (params st),
                               stage_of := (stage_of st)(n := Unscaled)\<rparr>))"
| "exec_op ag (ClipGradNorm n) st = Inr (st\<lparr>params := clip_grads ag n (params st)\<rparr>)"
| "exec_op ag (OptimizerStep n via_scaler) st =
     (if \<not> via_scaler \<or> \<not> scaler_enabled ag
      then Inr (st\<lparr>params := optimizer_step ag n (params st)\<rparr>)
      else case stage_of st n of
             Stepped \<Rightarrow> Inl StepTwice
           | Ready \<Rightarrow>
               (let ps = unscale_grads ag (scale_gen st) n (params st);
                    ps = (if found_inf ag n (scale_gen st) then ps else optimizer_step ag n ps)
                in Inr (st\<lparr>params := ps, stage_of := (stage_of st)(n := Stepped)\<rparr>))
           | Unscaled \<Rightarrow>
               (let ps = params st;
                    ps = (if found_inf ag n (scale_gen st) then ps else optimizer_step ag n ps)
                in Inr (st\<lparr>params := ps, stage_of := (stage_of st)(n := Stepped)\<rparr>)))"
| "exec_op ag ScalerUpdate st =
     (if \<not> scaler_enabled ag then Inr st
      else if stage_of st Detector = Ready \<and> stage_of st ControlNetwork = Ready
           then Inl NoInfChecks
           else Inr (st\<lparr>stage_of := (\<lambda>n. Ready), scale_gen := Suc (scale_gen st)\<rparr>))"
| "exec_op ag (ZeroGrad n) st = Inr (st\<lparr>params := zero_grads ag n (params st)\<rparr>)"
| "exec_op ag EmaUpdate st = Inr st"

fun exec_ops :: "'v autograd \<Rightarrow> op list \<Rightarrow> 'v train_state \<Rightarrow> scaler_error + 'v train_state" where
  "exec_ops ag [] st = Inr st"
| "exec_ops ag (x # xs) st =
     (case exec_op ag x st of Inl e \<Rightarrow> Inl e | Inr st' \<Rightarrow> exec_ops ag xs st')"

text \<open>
  The flags as the scripts set them before the loop. \<^verbatim>\<open>train.py\<close>: \<^verbatim>\<open>requires_grad = False\<close>
  for \<^verbatim>\<open>downscaling_network.resnet101.parameters()\<close>, \<^verbatim>\<open>True\<close> for \<^verbatim>\<open>extended_fc\<close>; every
  detector parameter \<^verbatim>\<open>True\<close> unless its name is in the freeze list. \<^verbatim>\<open>train2_0602_qf80_8.py\<close>:
  \<^verbatim>\<open>False\<close> for \<^verbatim>\<open>self.resnet.parameters()\<close> in the constructor of the control network and for
  \<^verbatim>\<open>bitEstimator.parameters()\<close>; the head keeps what its constructor gave it.
\<close>

definition freeze_train :: "(nat \<Rightarrow> bool) \<Rightarrow> 'v store \<Rightarrow> 'v store" where
  "freeze_train frozen_layer s =
     (\<lambda>k. map_option (\<lambda>p. case fst k of
          ControlBackbone \<Rightarrow> p\<lparr>requires_grad := False\<rparr>
        | ControlHead \<Rightarrow> p\<lparr>requires_grad := True\<rparr>
        | DetectorParam \<Rightarrow> p\<lparr>requires_grad := \<not> frozen_layer (snd k)\<rparr>
        | BitEstimator \<Rightarrow> p) (s k))"

definition freeze_train2 :: "(nat \<Rightarrow> bool) \<Rightarrow> 'v store \<Rightarrow> 'v store" where
  "freeze_train2 frozen_layer s =
     (\<lambda>k. map_option (\<lambda>p. case fst k of
          ControlBackbone \<Rightarrow> p\<lparr>requires_grad := False\<rparr>
        | ControlHead \<Rightarrow> p
        | DetectorParam \<Rightarrow> p\<lparr>requires_grad := \<not> frozen_layer (snd k)\<rparr>
        | BitEstimator \<Rightarrow> p\<lparr>requires_grad := False\<rparr>) (s k))"

text \<open>
  Any number of iterations of the batch loop: each has its batch counter \<open>ni\<close>, its
  \<^verbatim>\<open>accumulate\<close> and its own numbers; \<^verbatim>\<open>last_opt_step\<close> is threaded through.
\<close>

fun run_steps ::
  "(int \<Rightarrow> int \<Rightarrow> real \<Rightarrow> bool \<Rightarrow> op list \<times> int) \<Rightarrow> bool \<Rightarrow>
   (int \<times> real \<times> 'v autograd) list \<Rightarrow> int \<Rightarrow> 'v train_state
     \<Rightarrow> scaler_error + 'v train_state" where
  "run_steps step ema [] last_opt_step st = Inr st"
| "run_steps step ema ((ni, accumulate, ag) # rest) last_opt_step st =
     (case step ni last_opt_step accumulate ema of
        (ops, last') \<Rightarrow>
          (case exec_ops ag ops st of
             Inl e \<Rightarrow> Inl e
           | Inr st' \<Rightarrow> run_steps step ema rest last' st'))"

text \<open>
  The state at the start of the loop: every stage ready, the first scale. \<open>reaches_both\<close>:
  the combined loss is computed from the detector's predictions and from the control
  network's output, so a backward pass on it finds a gradient for the parameters of the
  detector and of the control network's head.
\<close>

definition initial_state :: "'v store \<Rightarrow> 'v train_state" where
  "initial_state s = \<lparr>params = s, stage_of = (\<lambda>n. Ready), scale_gen = 0\<rparr>"

definition all_ready :: "'v train_state \<Rightarrow> bool" where
  "all_ready st \<longleftrightarrow> stage_of st Detector = Ready \<and> stage_of st ControlNetwork = Ready"


text \<open>Freshly constructed or loaded parameters carry no gradient.\<close>

definition fresh_grads :: "'v store \<Rightarrow> bool" where
  "fresh_grads s \<longleftrightarrow> (\<forall>k p. s k = Some p \<longrightarrow> grad p = None)"

definition frozen_owner :: "owner \<Rightarrow> bool" where
  "frozen_owner w \<longleftrightarrow> w = ControlBackbone \<or> w = BitEstimator"

definition frozen_ready :: "'v store \<Rightarrow> bool" where
  "frozen_ready s \<longleftrightarrow>
     (\<forall>k p. s k = Some p \<and> fst k = ControlBackbone \<longrightarrow> \<not> requires_grad p \<and> grad p = None)"

definition same_frozen :: "'v store \<Rightarrow> 'v store \<Rightarrow> bool" where
  "same_frozen s t \<longleftrightarrow>
     (\<forall>k. frozen_owner (fst k) \<longrightarrow> map_option pvalue (t k) = map_option pvalue (s k))"

definition example_store :: "int store" where
  "example_store k =
     (if snd k = 0 then Some \<lparr>pvalue = 10, requires_grad = True, grad = None\<rparr> else None)"

definition example_autograd :: "int autograd" where
  "example_autograd =
     \<lparr>grad_of = (\<lambda>l sc k. Some 4), accum = (+), unscaled = (\<lambda>gen g. g div 2),
      clipped = (\<lambda>n g. g), update = (\<lambda>n k v g. v - g), found_inf = (\<lambda>n gen. False),
      scaler_enabled = True, set_to_none = True, zero_like = (\<lambda>g. 0)\<rparr>"


section \<open>Loading the control network from a checkpoint\<close>

text \<open>
  The checkpoint is a dictionary; of its entries only the control network's matters here.
  \<^verbatim>\<open>load_state_dict\<close> is strict: it raises a \<^verbatim>\<open>RuntimeError\<close> unless the stored state
  dict fits the network (\<open>fits\<close>). What the fragment writes out is recorded with its
  channel: \<^verbatim>\<open>print\<close> or \<^verbatim>\<open>LOGGER.info\<close>; the training scripts call \<^verbatim>\<open>LOGGER.warning\<close> only for
  the DataParallel advice.

  \<^verbatim>\<open>train.py\<close>: \<^verbatim>\<open>if "downscaling_network" in ckpt:\<close> load and print; then, in either case,
  \<^verbatim>\<open>LOGGER.info(f"Transferred {len(csd)}/{len(model.state_dict())} items from {weights}")\<close>.
  \<^verbatim>\<open>train2_0602_qf80_8.py\<close>: \<^verbatim>\<open>if "dynamic_luminance_network" in ckpt:\<close> load and print,
  \<^verbatim>\<open>else:\<close> the same \<^verbatim>\<open>LOGGER.info\<close>.
\<close>

datatype level = Stdout | Info | Warning

datatype message =
    LoadedDownscalingWeights
  | LoadedLuminanceWeights
  | Transferred nat nat string

datatype setup_error = RuntimeError

type_synonym log = "(level \<times> message) list"

definition load_state_dict :: "('sd \<Rightarrow> bool) \<Rightarrow> 'sd \<Rightarrow> setup_error + 'sd" where
  "load_state_dict fits sd = (if fits sd then Inr sd else Inl RuntimeError)"

definition load_downscaling_network ::
  "('sd \<Rightarrow> bool) \<Rightarrow> (string \<Rightarrow> 'sd option) \<Rightarrow> 'sd \<Rightarrow> nat \<Rightarrow> nat \<Rightarrow> string
     \<Rightarrow> setup_error + ('sd \<times> log)" where
  "load_downscaling_network fits ckpt downscaling_network n_csd n_model weights =
     (case ckpt ''downscaling_network'' of
        Some sd \<Rightarrow>
          (case load_state_dict fits sd of
             Inl e \<Rightarrow> Inl e
           | Inr loaded \<Rightarrow>
               Inr (loaded, [(Stdout, LoadedDownscalingWeights),
                             (Info, Transferred n_csd n_model weights)]))
      | None \<Rightarrow> Inr (downscaling_network, [(Info, Transferred n_csd n_model weights)]))"

definition load_dynamic_luminance_network ::
  "('sd \<Rightarrow> bool) \<Rightarrow> (string \<Rightarrow> 'sd option) \<Rightarrow> 'sd \<Rightarrow> nat \<Rightarrow> nat \<Rightarrow> string
     \<Rightarrow> setup_error + ('sd \<times> log)" where
  "load_dynamic_luminance_network fits ckpt dynamic_luminance_network n_csd n_model weights =
     (case ckpt ''dynamic_luminance_network'' of
        Some sd \<Rightarrow>
          (case load_state_dict fits sd of
             Inl e \<Rightarrow> Inl e
           | Inr loaded \<Rightarrow> Inr (loaded, [(Stdout, LoadedLuminanceWeights)]))
      | None \<Rightarrow> Inr (dynamic_luminance_network, [(Info, Transferred n_csd n_model weights)]))"

definition logs_warning :: "log \<Rightarrow> bool" where
  "logs_warning l = list_ex (\<lambda>e. fst e = Warning) l"

text \<open>A checkpoint with no control-network entry, and a network that any state dict fits.\<close>

definition checkpoint_without_entry :: "string \<Rightarrow> nat option" where
  "checkpoint_without_entry k = None"

definition any_state_dict_fits :: "nat \<Rightarrow> bool" where
  "any_state_dict_fits sd = True"


section \<open>Properties\<close>

subsection \<open>Delta encoding\<close>

lemma round_half_even_of_int: "round_half_even (of_int k) = k"
  by (simp add: round_half_even_def)

lemma f32_ulp_pos: "0 < f32_ulp x"
  by (simp add: f32_ulp_def)

lemma round_f32_exact:
  assumes "x / f32_ulp x \<in> \<int>"
  shows "round_f32 x = x"
proof (cases "x = 0")
  case True
  then show ?thesis by (simp add: round_f32_def)
next
  case False
  obtain k :: int where k: "x / f32_ulp x = of_int k" using assms by (auto elim: Ints_cases)
  have "round_f32 x = of_int k * f32_ulp x"
    using False by (simp add: round_f32_def k round_half_even_of_int)
  also have "\<dots> = x" using k f32_ulp_pos [of x] by (simp add: field_simps)
  finally show ?thesis .
qed

lemma floor_log2_eq:
  fixes x :: real
  assumes "2 powi e \<le> x" "x < 2 powi (e + 1)"
  shows "\<lfloor>log 2 x\<rfloor> = e"
proof -
  have p: "(0::real) < 2 powi e" by simp
  have pos: "0 < x" using assms(1) p by linarith
  have ea: "(2::real) powr (of_int e) = 2 powi e" by (rule powr_real_of_int') simp_all
  have eb: "(2::real) powr (of_int (e + 1)) = 2 powi (e + 1)" by (rule powr_real_of_int') simp_all
  have "of_int e \<le> log 2 x" using assms(1) pos ea by (simp add: le_log_iff)
  moreover have "log 2 x < of_int (e + 1)" using assms(2) pos eb by (simp only: log_less_iff)
  ultimately show ?thesis by (simp add: floor_eq_iff)
qed

lemma f32_ulp_eq:
  fixes x :: real
  assumes "2 powi e \<le> \<bar>x\<bar>" "\<bar>x\<bar> < 2 powi (e + 1)" "- 126 \<le> e"
  shows "f32_ulp x = 2 powi (e - 23)"
  using floor_log2_eq [OF assms(1,2)] assms(3) by (simp add: f32_ulp_def)

lemma round_f32_eval:
  fixes x :: real
  assumes "x \<noteq> 0" "2 powi e \<le> \<bar>x\<bar>" "\<bar>x\<bar> < 2 powi (e + 1)" "- 126 \<le> e"
      and "x / 2 powi (e - 23) = q" "round_half_even q = k"
  shows "round_f32 x = of_int k * 2 powi (e - 23)"
  using assms(1,5,6) f32_ulp_eq [OF assms(2,3,4)] by (simp add: round_f32_def)

lemma floor_half: "\<lfloor>- (33554431 / 2) :: real\<rfloor> = - 16777216"
  by (simp add: floor_eq_iff)

lemma round_f32_below_1024: "round_f32 (1/32768 - 1024) = - 1024"
  using round_f32_eval [of "1/32768 - 1024" 9 "- (33554431 / 2)" "- 16777216"]
  by (simp add: power_int_def power_divide round_half_even_def floor_half)

lemma round_f32_below_5: "round_f32 (5 - 1/32768) = 5 - 1/32768"
  using round_f32_eval [of "5 - 1/32768" 2 "10485696" "10485696"]
  by (simp add: power_int_def power_divide round_half_even_def)

lemma round_f32_of_int:
  assumes "\<bar>n\<bar> \<le> 2 ^ 24"
  shows "round_f32 (of_int n) = of_int n"
proof (cases "n = 0")
  case True
  then show ?thesis by (simp add: round_f32_def)
next
  case False
  define x :: real where "x = \<bar>of_int n\<bar>"
  define e where "e = \<lfloor>log 2 x\<rfloor>"
  have x1: "1 \<le> x" using False by (simp add: x_def)
  have x2: "x \<le> 2 ^ 24" using assms unfolding x_def
    by (metis of_int_abs of_int_le_iff of_int_numeral of_int_power)
  have "0 \<le> log 2 x" using x1 by simp
  then have e0: "0 \<le> e" by (simp add: e_def)
  have "x \<le> 2 powr 24" using x2 by simp
  then have "log 2 x \<le> 24" using x1 by (simp only: log_le_iff) 
  then have e24: "e \<le> 24" unfolding e_def by (metis floor_le_iff floor_mono floor_numeral)
  have le: "of_int e \<le> log 2 x" by (simp add: e_def)
  have ea: "(2::real) powr (of_int e) = 2 powi e" by (rule powr_real_of_int') simp_all
  have lo: "2 powi e \<le> x" using le x1 ea by (simp add: le_log_iff)
  have u: "f32_ulp (of_int n) = 2 powi (e - 23)"
    using e0 by (simp add: f32_ulp_def e_def x_def)
  have "of_int n / (2::real) powi (e - 23) \<in> \<int>"
  proof (cases "e \<le> 23")
    case True
    have "of_int n / (2::real) powi (e - 23) = of_int n * 2 powi (23 - e)"
      by (simp add: power_int_diff field_simps)
    also have "\<dots> = of_int (n * 2 ^ nat (23 - e))"
      using True by (simp add: power_int_def)
    finally show ?thesis by (simp only: Ints_of_int)
  next
    case False
    then have e: "e = 24" using e24 by simp
    have "(2::real) ^ 24 \<le> x" using lo by (simp add: e power_int_def)
    then have "x = 2 ^ 24" using x2 by simp
    then have "\<bar>n\<bar> = 2 ^ 24" unfolding x_def
      by (metis of_int_abs of_int_eq_iff of_int_numeral of_int_power)
    then have "n = 2 ^ 24 \<or> n = - (2 ^ 24)" by linarith
    then show ?thesis by (auto simp: e power_int_def)
  qed
  then show ?thesis unfolding u [symmetric] by (rule round_f32_exact)
qed

lemma delta_tail_unfold:
  "map2 (@) (map2 (map2 (\<lambda>a b. rnd (a - b))) (map (take 1) bs)
               (butlast (take 1 b # map (take 1) bs)))
        (map (drop 1) bs) = delta_tail rnd b bs"
  by (induction bs arbitrary: b) simp_all

lemma delta_encode_Nil: "delta_encode rnd [] = []"
  by (simp add: delta_encode_def)

lemma delta_encode_Cons: "delta_encode rnd (b # bs) = b # delta_tail rnd b bs"
  using delta_tail_unfold [of rnd bs b] by (simp add: delta_encode_def Let_def)

lemma length_delta_tail: "length (delta_tail rnd b bs) = length bs"
  by (induction bs arbitrary: b) simp_all

lemma length_delta_encode: "length (delta_encode rnd x) = length x"
  by (cases x) (simp_all add: delta_encode_Nil delta_encode_Cons length_delta_tail)

lemma delta_tail_nth:
  "i < length bs \<Longrightarrow> \<forall>c \<in> set (b # bs). c \<noteq> [] \<Longrightarrow>
   delta_tail rnd b bs ! i
     = rnd ((b # bs) ! Suc i ! 0 - (b # bs) ! i ! 0) # drop 1 ((b # bs) ! Suc i)"
proof (induction bs arbitrary: b i)
  case Nil
  then show ?case by simp
next
  case (Cons c cs)
  obtain b0 bt where b: "b = b0 # bt" using Cons.prems(2) by (cases b) auto
  obtain c0 ct where c: "c = c0 # ct" using Cons.prems(2) by (cases c) auto
  show ?case
  proof (cases i)
    case 0
    then show ?thesis by (simp add: b c)
  next
    case (Suc k)
    then have "k < length cs" using Cons.prems(1) by simp
    moreover have "\<forall>d \<in> set (c # cs). d \<noteq> []" using Cons.prems(2) by simp
    ultimately show ?thesis using Cons.IH [of k c] Suc by simp
  qed
qed

lemma delta_encode_nth_later:
  assumes "0 < i" "i < length x" "\<forall>c \<in> set x. c \<noteq> []"
  shows "delta_encode rnd x ! i = rnd (x ! i ! 0 - x ! (i - 1) ! 0) # drop 1 (x ! i)"
proof -
  obtain b bs where x: "x = b # bs" using assms(2) by (cases x) auto
  obtain k where i: "i = Suc k" using assms(1) by (cases i) auto
  have "k < length bs" using assms(2) x i by simp
  moreover have "\<forall>c \<in> set (b # bs). c \<noteq> []" using assms(3) x by simp
  ultimately have "delta_tail rnd b bs ! k
      = rnd ((b # bs) ! Suc k ! 0 - (b # bs) ! k ! 0) # drop 1 ((b # bs) ! Suc k)"
    by (rule delta_tail_nth)
  then show ?thesis by (simp add: x i delta_encode_Cons)
qed

lemma decode_delta_tail:
  "\<forall>c \<in> set (b # bs). c \<noteq> [] \<Longrightarrow> dc_chain rnd b bs \<Longrightarrow>
   map2 (@) (cumsum_rows rnd (take 1 b) (map (take 1) (delta_tail rnd b bs)))
            (map (drop 1) (delta_tail rnd b bs)) = bs"
proof (induction bs arbitrary: b)
  case Nil
  then show ?case by simp
next
  case (Cons c cs)
  obtain b0 bt where b: "b = b0 # bt" using Cons.prems(1) by (cases b) auto
  obtain c0 ct where c: "c = c0 # ct" using Cons.prems(1) by (cases c) auto
  have ne: "\<forall>d \<in> set (c # cs). d \<noteq> []" using Cons.prems(1) by simp
  have ch: "dc_chain rnd c cs" and d: "rnd (c0 - b0) = c0 - b0" and r: "rnd c0 = c0"
    using Cons.prems(2) by (simp_all add: b c)
  from Cons.IH [OF ne ch] show ?case by (simp add: b c Let_def d r)
qed

lemma dc_exact_chain: "dc_exact rnd (b # bs) \<Longrightarrow> dc_chain rnd b bs"
proof (induction bs arbitrary: b)
  case Nil
  then show ?case by simp
next
  case (Cons c cs)
  have a: "\<forall>i < length (b # c # cs). rnd ((b # c # cs) ! i ! 0) = (b # c # cs) ! i ! 0"
    and d: "\<forall>i. 0 < i \<and> i < length (b # c # cs) \<longrightarrow>
          rnd ((b # c # cs) ! i ! 0 - (b # c # cs) ! (i - 1) ! 0)
            = (b # c # cs) ! i ! 0 - (b # c # cs) ! (i - 1) ! 0"
    using Cons.prems by (simp_all add: dc_exact_def)
  have 1: "rnd (c ! 0) = c ! 0" using a [rule_format, of 1] by simp
  have 2: "rnd (c ! 0 - b ! 0) = c ! 0 - b ! 0" using d [rule_format, of 1] by simp
  have "dc_exact rnd (c # cs)"
    unfolding dc_exact_def
  proof (intro conjI allI impI)
    fix i assume "i < length (c # cs)"
    then show "rnd ((c # cs) ! i ! 0) = (c # cs) ! i ! 0"
      using a [rule_format, of "Suc i"] by simp
  next
    fix i assume "0 < i \<and> i < length (c # cs)"
    then show "rnd ((c # cs) ! i ! 0 - (c # cs) ! (i - 1) ! 0)
        = (c # cs) ! i ! 0 - (c # cs) ! (i - 1) ! 0"
      using d [rule_format, of "Suc i"] by simp
  qed
  then have "dc_chain rnd c cs" by (rule Cons.IH)
  then show ?case using 1 2 by simp
qed

lemma prefix_sum_decode_delta_encode:
  assumes "\<forall>c \<in> set x. c \<noteq> []" "dc_exact rnd x"
  shows "prefix_sum_decode rnd (delta_encode rnd x) = x"
proof (cases x)
  case Nil
  then show ?thesis by (simp add: delta_encode_Nil prefix_sum_decode_def cumsum_blocks_def)
next
  case (Cons b bs)
  have ne: "\<forall>c \<in> set (b # bs). c \<noteq> []" using assms(1) Cons by simp
  have ch: "dc_chain rnd b bs" using assms(2) Cons by (intro dc_exact_chain) simp
  show ?thesis
    using decode_delta_tail [OF ne ch]
    by (simp add: Cons delta_encode_Cons prefix_sum_decode_def cumsum_blocks_def Let_def)
qed

lemma blocks64_nonempty: "blocks64 x \<Longrightarrow> \<forall>c \<in> set x. c \<noteq> []"
  by (auto simp: blocks64_def list_all_iff)

lemma dc_integers_exact:
  assumes "dc_integers x"
  shows "dc_exact round_f32 x"
proof -
  have int: "\<exists>n::int. x ! i ! 0 = of_int n \<and> \<bar>n\<bar> \<le> 2 ^ 23" if "i < length x" for i
  proof -
    have "x ! i ! 0 \<in> \<int>" "\<bar>x ! i ! 0\<bar> \<le> 2 ^ 23"
      using assms that by (simp_all add: dc_integers_def list_all_length)
    then obtain n :: int where n: "x ! i ! 0 = of_int n" by (auto elim: Ints_cases)
    have "\<bar>of_int n :: real\<bar> \<le> 2 ^ 23" using \<open>\<bar>x ! i ! 0\<bar> \<le> 2 ^ 23\<close> n by simp
    then have "\<bar>n\<bar> \<le> 2 ^ 23"
      by (metis of_int_abs of_int_le_iff of_int_numeral of_int_power)
    then show ?thesis using n by blast
  qed
  show ?thesis
    unfolding dc_exact_def
  proof (intro conjI allI impI)
    fix i assume "i < length x"
    then obtain n :: int where "x ! i ! 0 = of_int n" "\<bar>n\<bar> \<le> 2 ^ 23" using int by blast
    then show "round_f32 (x ! i ! 0) = x ! i ! 0"
      using round_f32_of_int [of n] by simp
  next
    fix i assume i: "0 < i \<and> i < length x"
    then obtain n :: int where n: "x ! i ! 0 = of_int n" "\<bar>n\<bar> \<le> 2 ^ 23" using int by blast
    have "i - 1 < length x" using i by arith
    then obtain m :: int where m: "x ! (i - 1) ! 0 = of_int m" "\<bar>m\<bar> \<le> 2 ^ 23"
      using int by blast
    have "\<bar>n - m\<bar> \<le> 2 ^ 24" using n(2) m(2) by simp
    then have "round_f32 (of_int (n - m)) = of_int (n - m)" by (rule round_f32_of_int)
    then show "round_f32 (x ! i ! 0 - x ! (i - 1) ! 0) = x ! i ! 0 - x ! (i - 1) ! 0"
      using n(1) m(1) by simp
  qed
qed

lemma round_f32_0: "round_f32 0 = 0"
  by (simp add: round_f32_def)

lemma round_f32_tie: "round_f32 (- (33554431 / 32768)) = - 1024"
  using round_f32_below_1024 by simp

lemma round_f32_near5: "round_f32 (163839 / 32768) = 163839 / 32768"
  using round_f32_below_5 by simp

text \<open>
  Claim C3, as the specification states it, fails: the subtraction is done in the tensor's
  float dtype. For the float32 DC coefficients 1024, \<open>2\<^sup>-\<^sup>1\<^sup>5\<close>, 5 the encoder stores
  \<open>- 1024\<close> for the second block (the exact difference is a tie and rounds to even), and
  the prefix sum gives \<open>5 - 2\<^sup>-\<^sup>1\<^sup>5\<close> for the third DC coefficient: an error of about
  \<open>3.05 \<times> 10\<^sup>-\<^sup>5\<close>, more than \<open>10\<^sup>-\<^sup>5\<close>.
\<close>

theorem delta_roundtrip_float_counterexample:
  "blocks64 f32_counter_blocks
   \<and> round_f32 1024 = 1024 \<and> round_f32 (1 / 32768) = 1 / 32768 \<and> round_f32 5 = 5
   \<and> delta_encode round_f32 f32_counter_blocks ! 1 ! 0 = - 1024
   \<and> prefix_sum_decode round_f32 (delta_encode round_f32 f32_counter_blocks) ! 2 ! 0
       = 5 - 1 / 32768
   \<and> 1 / 100000 < \<bar>prefix_sum_decode round_f32 (delta_encode round_f32 f32_counter_blocks) ! 2 ! 0
                     - f32_counter_blocks ! 2 ! 0\<bar>"
proof -
  have b: "blocks64 f32_counter_blocks"
    by (simp add: blocks64_def f32_counter_blocks_def)
  have r1: "round_f32 1024 = 1024" using round_f32_of_int [of 1024] by simp
  have r5: "round_f32 5 = 5" using round_f32_of_int [of 5] by simp
  have rs: "round_f32 (1 / 32768) = 1 / 32768"
    using round_f32_eval [of "1 / 32768" "- 15" 8388608 8388608]
    by (simp add: power_int_def power_divide round_half_even_def)
  have e: "delta_encode round_f32 f32_counter_blocks
      = [1024 # replicate 63 0, (- 1024) # replicate 63 0, (163839 / 32768) # replicate 63 0]"
    by (simp add: f32_counter_blocks_def delta_encode_Cons round_f32_tie round_f32_near5)
  have d: "prefix_sum_decode round_f32 (delta_encode round_f32 f32_counter_blocks)
      = [1024 # replicate 63 0, 0 # replicate 63 0, (163839 / 32768) # replicate 63 0]"
    unfolding e
    by (simp add: prefix_sum_decode_def cumsum_blocks_def round_f32_0 round_f32_near5)
  have e1: "delta_encode round_f32 f32_counter_blocks ! 1 ! 0 = - 1024"
    by (simp add: e)
  have d2: "prefix_sum_decode round_f32 (delta_encode round_f32 f32_counter_blocks) ! 2 ! 0
      = 5 - 1 / 32768"
    by (simp add: d)
  have x2: "f32_counter_blocks ! 2 ! 0 = 5"
    by (simp add: f32_counter_blocks_def)
  show ?thesis
    unfolding d2 e1 x2 using b r1 r5 rs by simp
qed

text \<open>
  Claim C3, amended. On a block sequence of shape \<open>(num_blocks, 64)\<close>, \<open>delta_encode\<close> keeps
  the number of blocks, keeps the DC coefficient (index 0) of the first block, replaces the
  DC coefficient of every later block by the rounded difference from the DC coefficient of
  the block just before it, and passes the 63 AC coefficients of every block through
  unchanged. The prefix-sum decoder gives the input back exactly whenever the DC
  coefficients and the differences of consecutive DC coefficients are values of the dtype.
  In float32 that is so for whole-number DC coefficients of magnitude at most \<open>2\<^sup>2\<^sup>3\<close>:
  for those the round trip is exact, hence within \<open>10\<^sup>-\<^sup>5\<close>.
\<close>

theorem delta_encode_roundtrip:
  assumes "blocks64 x"
  shows "length (delta_encode rnd x) = length x
       \<and> (x \<noteq> [] \<longrightarrow> delta_encode rnd x ! 0 ! 0 = x ! 0 ! 0)
       \<and> (\<forall>i. 0 < i \<and> i < length x \<longrightarrow>
            delta_encode rnd x ! i ! 0 = rnd (x ! i ! 0 - x ! (i - 1) ! 0))
       \<and> (\<forall>i j. i < length x \<and> 1 \<le> j \<and> j < 64 \<longrightarrow>
            delta_encode rnd x ! i ! j = x ! i ! j)
       \<and> (dc_exact rnd x \<longrightarrow> prefix_sum_decode rnd (delta_encode rnd x) = x)
       \<and> (dc_integers x \<longrightarrow>
            prefix_sum_decode round_f32 (delta_encode round_f32 x) = x
          \<and> (\<forall>i j. i < length x \<and> j < 64 \<longrightarrow>
                \<bar>prefix_sum_decode round_f32 (delta_encode round_f32 x) ! i ! j - x ! i ! j\<bar>
                  \<le> 1 / 100000))"
proof -
  have ne: "\<forall>c \<in> set x. c \<noteq> []" using assms by (rule blocks64_nonempty)
  have len: "length (delta_encode rnd x) = length x" by (rule length_delta_encode)
  have first: "x \<noteq> [] \<longrightarrow> delta_encode rnd x ! 0 ! 0 = x ! 0 ! 0"
    by (cases x) (simp_all add: delta_encode_Cons)
  have later: "\<forall>i. 0 < i \<and> i < length x \<longrightarrow>
      delta_encode rnd x ! i ! 0 = rnd (x ! i ! 0 - x ! (i - 1) ! 0)"
    using delta_encode_nth_later [OF _ _ ne] by simp
  have ac: "\<forall>i j. i < length x \<and> 1 \<le> j \<and> j < 64 \<longrightarrow>
      delta_encode rnd x ! i ! j = x ! i ! j"
  proof (intro allI impI)
    fix i :: nat and j :: nat
    assume h: "i < length x \<and> 1 \<le> j \<and> j < 64"
    then have l: "length (x ! i) = 64"
      using assms by (simp add: blocks64_def list_all_length)
    obtain k where j: "j = Suc k" using h by (cases j) auto
    show "delta_encode rnd x ! i ! j = x ! i ! j"
    proof (cases i)
      case 0
      then show ?thesis using h by (cases x) (simp_all add: delta_encode_Cons)
    next
      case (Suc m)
      then have "delta_encode rnd x ! i = rnd (x ! i ! 0 - x ! (i - 1) ! 0) # drop 1 (x ! i)"
        using h ne by (intro delta_encode_nth_later) simp_all
      then show ?thesis using h l j by simp
    qed
  qed
  have rt: "dc_exact rnd x \<longrightarrow> prefix_sum_decode rnd (delta_encode rnd x) = x"
    using ne by (simp add: prefix_sum_decode_delta_encode)
  have f32: "prefix_sum_decode round_f32 (delta_encode round_f32 x) = x" if "dc_integers x"
    using ne dc_integers_exact [OF that] by (rule prefix_sum_decode_delta_encode)
  show ?thesis using len first later ac rt f32 by simp
qed

theorem delta_encode_roundtrip_witness:
  "blocks64 example_blocks \<and> dc_integers example_blocks
   \<and> delta_encode round_f32 example_blocks ! 2 ! 7 = - 5
   \<and> prefix_sum_decode round_f32 (delta_encode round_f32 example_blocks) = example_blocks"
proof -
  have b: "blocks64 example_blocks"
    by (simp add: blocks64_def example_blocks_def)
  have d: "dc_integers example_blocks"
    by (simp add: dc_integers_def example_blocks_def)
  have l: "length example_blocks = 3" by (simp add: example_blocks_def)
  have v: "example_blocks ! 2 ! 7 = - 5"
    by (simp add: example_blocks_def)
  note r = delta_encode_roundtrip [OF b, of round_f32]
  have "delta_encode round_f32 example_blocks ! 2 ! 7 = example_blocks ! 2 ! 7"
    using r l by simp
  then show ?thesis using b d r v by simp
qed

subsection \<open>Gaussian blur\<close>












lemma has_shape_iff:
  "has_shape t B C H W \<longleftrightarrow>
     length t = B \<and> (\<forall>img \<in> set t. length img = C \<and>
       (\<forall>pl \<in> set img. length pl = H \<and> (\<forall>row \<in> set pl. length row = W)))"
  by (simp add: has_shape_def list_all_iff)



subsection \<open>Reinhard tone mapping\<close>

lemma plane_shape_nth: "plane_shape p H W \<Longrightarrow> i < H \<Longrightarrow> length (p ! i) = W"
  by (simp add: plane_shape_def)

lemma plane_shape_map: "plane_shape p H W \<Longrightarrow> plane_shape (map (map f) p) H W"
  by (simp add: plane_shape_def)

lemma plane_shape_map2:
  "plane_shape p H W \<Longrightarrow> plane_shape q H W \<Longrightarrow> plane_shape (plane_map2 f p q) H W"
  by (auto simp: plane_shape_def plane_map2_def set_zip)

lemma plane_map2_nth:
  "plane_shape p H W \<Longrightarrow> plane_shape q H W \<Longrightarrow> i < H \<Longrightarrow> j < W \<Longrightarrow>
   plane_map2 f p q ! i ! j = f (p ! i ! j) (q ! i ! j)"
  by (simp add: plane_shape_def plane_map2_def)

lemma plane_map_nth:
  "plane_shape p H W \<Longrightarrow> i < H \<Longrightarrow> j < W \<Longrightarrow> map (map f) p ! i ! j = f (p ! i ! j)"
  by (simp add: plane_shape_def)

lemma tone_map_bounds:
  fixes L w e :: real
  assumes "0 \<le> L" "0 < w" "0 < e"
  shows "0 \<le> L / (1 + L / (w + e)) / (L + e)"
    and "L / (1 + L / (w + e)) / (L + e) < 1"
    and "L / (1 + L / (w + e)) \<le> L"
proof -
  define d where "d = 1 + L / (w + e)"
  define A where "A = L / d"
  have "0 \<le> L / (w + e)" using assms by (intro divide_nonneg_pos) simp_all
  then have d: "1 \<le> d" by (simp add: d_def)
  have A0: "0 \<le> A" unfolding A_def using assms(1) d by (intro divide_nonneg_pos) simp_all
  have "L \<le> L * d" using assms(1) d by (simp add: mult_le_cancel_left1)
  then have A1: "A \<le> L" unfolding A_def using d by (simp add: divide_le_eq)
  have pos: "0 < L + e" using assms by simp
  have "0 \<le> A / (L + e)" using A0 pos by (intro divide_nonneg_pos)
  moreover have "A < L + e" using A1 assms(3) by simp
  then have "A / (L + e) < 1" using pos by simp
  ultimately show "0 \<le> L / (1 + L / (w + e)) / (L + e)"
    and "L / (1 + L / (w + e)) / (L + e) < 1"
    and "L / (1 + L / (w + e)) \<le> L"
    using A1 by (simp_all only: A_def d_def)
qed

lemma scale_mult_bounds:
  fixes x s :: real
  assumes "0 \<le> x" "0 \<le> s" "s < 1"
  shows "0 \<le> x * s \<and> x * s \<le> x"
  using assms by (simp add: mult_left_le)

lemma has_shape_plane:
  assumes "has_shape t B C H W" "b < B" "c < C"
  shows "length (t ! b) = C" and "plane_shape (t ! b ! c) H W"
proof -
  have "t ! b \<in> set t" using assms(1,2) by (simp add: has_shape_iff)
  then have img: "length (t ! b) = C"
      "\<forall>pl \<in> set (t ! b). length pl = H \<and> (\<forall>row \<in> set pl. length row = W)"
    using assms(1) by (simp_all add: has_shape_iff)
  show "length (t ! b) = C" by (rule img(1))
  have "t ! b ! c \<in> set (t ! b)" using img(1) assms(3) by simp
  then show "plane_shape (t ! b ! c) H W" using img(2) by (simp add: plane_shape_def)
qed

lemma in_unit_range_nth:
  assumes "in_unit_range t" "has_shape t B C H W" "b < B" "c < C" "i < H" "j < W"
  shows "0 \<le> t ! b ! c ! i ! j \<and> t ! b ! c ! i ! j \<le> 1"
proof -
  have "length t = B" using assms(2) by (simp add: has_shape_iff)
  moreover have "length (t ! b) = C" by (rule has_shape_plane(1) [OF assms(2,3,4)])
  moreover have "length (t ! b ! c) = H" "length (t ! b ! c ! i) = W"
    using has_shape_plane(2) [OF assms(2,3,4)] assms(5) by (simp_all add: plane_shape_def)
  ultimately show ?thesis
    using assms(1,3-6) by (simp add: in_unit_range_def list_all_length)
qed

lemma luminance_of_shape:
  assumes "plane_shape (img ! 0) H W" "plane_shape (img ! 1) H W" "plane_shape (img ! 2) H W"
  shows "plane_shape (luminance_of img) H W"
  unfolding luminance_of_def plane_scale_def
  by (intro plane_shape_map2 plane_shape_map assms)

lemma luminance_of_nth:
  assumes "plane_shape (img ! 0) H W" "plane_shape (img ! 1) H W" "plane_shape (img ! 2) H W"
      and "i < H" "j < W"
  shows "luminance_of img ! i ! j
       = 0.2126 * img ! 0 ! i ! j + 0.7152 * img ! 1 ! i ! j + 0.0722 * img ! 2 ! i ! j"
proof -
  have s: "plane_shape (plane_scale a (img ! 0)) H W" "plane_shape (plane_scale a (img ! 1)) H W"
       "plane_shape (plane_scale a (img ! 2)) H W" for a
    unfolding plane_scale_def by (intro plane_shape_map assms)+
  have v: "plane_scale a (img ! 0) ! i ! j = a * img ! 0 ! i ! j"
       "plane_scale a (img ! 1) ! i ! j = a * img ! 1 ! i ! j"
       "plane_scale a (img ! 2) ! i ! j = a * img ! 2 ! i ! j" for a
    unfolding plane_scale_def using assms by (simp_all add: plane_map_nth)
  have s2: "plane_shape (plane_map2 (+) (plane_scale 0.2126 (img ! 0)) (plane_scale 0.7152 (img ! 1))) H W"
    by (intro plane_shape_map2 s)
  show ?thesis
    unfolding luminance_of_def
    by (simp only: plane_map2_nth [OF s2 s(3) assms(4,5)] plane_map2_nth [OF s(1) s(2) assms(4,5)] v)
qed

lemma reinhard_scale_factor_shape:
  assumes "plane_shape (luminance_of img) H W"
  shows "plane_shape (reinhard_scale_factor w img) H W"
  unfolding reinhard_scale_factor_def Let_def
  by (intro plane_shape_map2 plane_shape_map assms)

lemma reinhard_scale_factor_nth:
  assumes "plane_shape (luminance_of img) H W" "i < H" "j < W"
  shows "reinhard_scale_factor w img ! i ! j
       = luminance_of img ! i ! j / (1 + luminance_of img ! i ! j / (w + 0.000001))
           / (luminance_of img ! i ! j + 0.000001)"
proof -
  have m: "plane_shape (map (map (\<lambda>L. L / (1 + L / (w + 0.000001)))) (luminance_of img)) H W"
    by (intro plane_shape_map assms)
  show ?thesis
    unfolding reinhard_scale_factor_def Let_def
    by (simp only: plane_map2_nth [OF m assms] plane_map_nth [OF assms])
qed

text \<open>
  Claim C9. For an image batch of shape \<open>(B, C, H, W)\<close> with the three colour channels the
  operator reads, entries in \<open>[0, 1]\<close>, and a positive luminance weight, tone mapping with
  white point 1.0 returns a batch of the same shape in which every entry is the input entry
  times the scale factor of its pixel; that factor lies in \<open>[0, 1)\<close>, so every output
  entry lies between 0 and the input entry, and in \<open>[0, 1]\<close>.
\<close>

theorem reinhard_never_increases:
  assumes "has_shape hdr_image B C H W" "3 \<le> C" "in_unit_range hdr_image" "0 < w"
  shows "\<exists>out. ReinhardToneMapping_forward 1.0 hdr_image w = Some out
           \<and> has_shape out B C H W
           \<and> (\<forall>b i j. b < B \<and> i < H \<and> j < W \<longrightarrow>
                 0 \<le> reinhard_scale_factor w (hdr_image ! b) ! i ! j
               \<and> reinhard_scale_factor w (hdr_image ! b) ! i ! j < 1)
           \<and> (\<forall>b c i j. b < B \<and> c < C \<and> i < H \<and> j < W \<longrightarrow>
                 out ! b ! c ! i ! j
                   = hdr_image ! b ! c ! i ! j * reinhard_scale_factor w (hdr_image ! b) ! i ! j
               \<and> 0 \<le> out ! b ! c ! i ! j
               \<and> out ! b ! c ! i ! j \<le> hdr_image ! b ! c ! i ! j
               \<and> out ! b ! c ! i ! j \<le> 1)"
proof -
  let ?sf = "\<lambda>img. reinhard_scale_factor w img"
  let ?out = "map (\<lambda>img. map (\<lambda>pl. plane_map2 (*) pl (?sf img)) img) hdr_image"
  have lenB: "length hdr_image = B" using assms(1) by (simp add: has_shape_iff)
  have lenC: "length img = C" if "img \<in> set hdr_image" for img
    using assms(1) that by (simp add: has_shape_iff)
  have "\<not> list_ex (\<lambda>img. length img < 3) hdr_image"
    using lenC assms(2) by (auto simp: list_ex_iff)
  then have run: "ReinhardToneMapping_forward 1.0 hdr_image w = Some ?out"
    by (simp add: ReinhardToneMapping_forward_def Let_def)
  have pl: "plane_shape (hdr_image ! b ! c) H W" if "b < B" "c < C" for b c
    by (rule has_shape_plane(2) [OF assms(1) that])
  have lum: "plane_shape (luminance_of (hdr_image ! b)) H W" if "b < B" for b
    using assms(2) that by (intro luminance_of_shape pl) simp_all
  have sfs: "plane_shape (?sf (hdr_image ! b)) H W" if "b < B" for b
    by (intro reinhard_scale_factor_shape lum that)
  have sfb: "0 \<le> ?sf (hdr_image ! b) ! i ! j \<and> ?sf (hdr_image ! b) ! i ! j < 1"
    if h: "b < B" "i < H" "j < W" for b i j
  proof -
    have c: "0 < C" "1 < C" "2 < C" using assms(2) by simp_all
    have "0 \<le> hdr_image ! b ! 0 ! i ! j" "0 \<le> hdr_image ! b ! 1 ! i ! j"
         "0 \<le> hdr_image ! b ! 2 ! i ! j"
      using in_unit_range_nth [OF assms(3,1) h(1) _ h(2,3)] c by simp_all
    then have "0 \<le> luminance_of (hdr_image ! b) ! i ! j"
      using c h by (simp add: luminance_of_nth [OF pl pl pl])
    then show ?thesis
      using tone_map_bounds(1,2) [of "luminance_of (hdr_image ! b) ! i ! j" w "0.000001"] assms(4)
      by (simp only: reinhard_scale_factor_nth [OF lum [OF h(1)] h(2,3)]) simp
  qed
  have shape: "has_shape ?out B C H W"
    unfolding has_shape_iff
  proof (intro conjI ballI)
    show "length ?out = B" using lenB by simp
  next
    fix img assume "img \<in> set ?out"
    then obtain im where im: "im \<in> set hdr_image" "img = map (\<lambda>pl. plane_map2 (*) pl (?sf im)) im"
      by auto
    then show "length img = C" using lenC by simp
  next
    fix img p assume "img \<in> set ?out" "p \<in> set img"
    then obtain im q where im: "im \<in> set hdr_image" "q \<in> set im" "p = plane_map2 (*) q (?sf im)"
      by auto
    obtain b where b: "b < B" "im = hdr_image ! b" using im(1) lenB by (auto simp: in_set_conv_nth)
    obtain c where c: "c < C" "q = im ! c" using im(2) lenC [OF im(1)] by (auto simp: in_set_conv_nth)
    have "plane_shape p H W"
      unfolding im(3) using pl [OF b(1) c(1)] sfs [OF b(1)] b(2) c(2)
      by (intro plane_shape_map2) simp_all
    then show "length p = H" by (simp add: plane_shape_def)
  next
    fix img p row assume "img \<in> set ?out" "p \<in> set img" "row \<in> set p"
    then obtain im q where im: "im \<in> set hdr_image" "q \<in> set im" "p = plane_map2 (*) q (?sf im)"
        and row: "row \<in> set p"
      by auto
    obtain b where b: "b < B" "im = hdr_image ! b" using im(1) lenB by (auto simp: in_set_conv_nth)
    obtain c where c: "c < C" "q = im ! c" using im(2) lenC [OF im(1)] by (auto simp: in_set_conv_nth)
    have "plane_shape p H W"
      unfolding im(3) using pl [OF b(1) c(1)] sfs [OF b(1)] b(2) c(2)
      by (intro plane_shape_map2) simp_all
    then show "length row = W" using row by (simp add: plane_shape_def)
  qed
  have px: "?out ! b ! c ! i ! j = hdr_image ! b ! c ! i ! j * ?sf (hdr_image ! b) ! i ! j
      \<and> 0 \<le> ?out ! b ! c ! i ! j \<and> ?out ! b ! c ! i ! j \<le> hdr_image ! b ! c ! i ! j
      \<and> ?out ! b ! c ! i ! j \<le> 1"
    if h: "b < B" "c < C" "i < H" "j < W" for b c i j
  proof -
    have lc: "length (hdr_image ! b) = C" by (rule has_shape_plane(1) [OF assms(1) h(1,2)])
    have "?out ! b ! c = plane_map2 (*) (hdr_image ! b ! c) (?sf (hdr_image ! b))"
      using h(1,2) lenB lc by simp
    then have e: "?out ! b ! c ! i ! j = hdr_image ! b ! c ! i ! j * ?sf (hdr_image ! b) ! i ! j"
      by (simp only: plane_map2_nth [OF pl [OF h(1,2)] sfs [OF h(1)] h(3,4)])
    have x: "0 \<le> hdr_image ! b ! c ! i ! j \<and> hdr_image ! b ! c ! i ! j \<le> 1"
      by (rule in_unit_range_nth [OF assms(3,1) h])
    have "0 \<le> hdr_image ! b ! c ! i ! j * ?sf (hdr_image ! b) ! i ! j
        \<and> hdr_image ! b ! c ! i ! j * ?sf (hdr_image ! b) ! i ! j \<le> hdr_image ! b ! c ! i ! j"
      using x sfb [OF h(1,3,4)] by (intro scale_mult_bounds) simp_all
    then show ?thesis using e x by simp
  qed
  show ?thesis
    using run shape sfb px by blast
qed

theorem reinhard_never_increases_witness:
  "has_shape example_image 1 3 2 2 \<and> in_unit_range example_image \<and> (0::real) < 1
   \<and> (\<exists>out. ReinhardToneMapping_forward 1.0 example_image 1 = Some out
          \<and> 0 \<le> out ! 0 ! 1 ! 0 ! 1 \<and> out ! 0 ! 1 ! 0 ! 1 \<le> example_image ! 0 ! 1 ! 0 ! 1)"
proof -
  have s: "has_shape example_image 1 3 2 2"
    by (simp add: has_shape_def example_image_def)
  have u: "in_unit_range example_image"
    by (simp add: in_unit_range_def example_image_def)
  obtain out where o: "ReinhardToneMapping_forward 1.0 example_image 1 = Some out"
      "\<forall>b c i j. b < 1 \<and> c < 3 \<and> i < 2 \<and> j < 2 \<longrightarrow>
          out ! b ! c ! i ! j
            = example_image ! b ! c ! i ! j * reinhard_scale_factor 1 (example_image ! b) ! i ! j
        \<and> 0 \<le> out ! b ! c ! i ! j
        \<and> out ! b ! c ! i ! j \<le> example_image ! b ! c ! i ! j
        \<and> out ! b ! c ! i ! j \<le> 1"
    using reinhard_never_increases [OF s _ u, of 1] by auto
  have "(0::nat) < 1 \<and> (1::nat) < 3 \<and> (0::nat) < 2 \<and> (1::nat) < 2" by simp
  then have "0 \<le> out ! 0 ! 1 ! 0 ! 1 \<and> out ! 0 ! 1 ! 0 ! 1 \<le> example_image ! 0 ! 1 ! 0 ! 1"
    using o(2) by blast
  then show ?thesis using s u o(1) by simp
qed

subsection \<open>Control-network outputs\<close>

lemma sigmoid_bounds: "0 < sigmoid x \<and> sigmoid x < 1"
proof -
  have "0 < exp (- x)" by simp
  then show ?thesis by (simp add: sigmoid_def add_pos_pos)
qed

lemma tanh_bounds: "- 1 < tanh (x::real) \<and> tanh x < 1"
  using tanh_real_bounds[of x] by auto

lemma downscaling_output_bounds: "\<forall>v \<in> set (DownscalingNetwork_forward pre x). 1 \<le> v \<and> v \<le> 4"
proof
  fix v assume "v \<in> set (DownscalingNetwork_forward pre x)"
  then obtain z where v: "v = (tanh z + 1) / 2 * 3 + 1"
    by (auto simp: DownscalingNetwork_forward_def)
  have "- 1 < tanh z" "tanh z < 1" using tanh_bounds [of z] by simp_all
  then show "1 \<le> v \<and> v \<le> 4" unfolding v by simp
qed

lemma luminance_output_bounds: "\<forall>(a, b) \<in> set (DynamicLuminanceWeightNetwork_forward f x). 1/2 \<le> a \<and> a \<le> 1 \<and> 1/2 \<le> b \<and> b \<le> 1"
proof -
  have "1/2 \<le> sigmoid z * 0.5 + 0.5 \<and> sigmoid z * 0.5 + 0.5 \<le> 1" for z
    using sigmoid_bounds [of z] by simp
  then show ?thesis
    by (auto simp: DynamicLuminanceWeightNetwork_forward_def)
qed

lemma clamp_weights_identity: "clamp_weights (DynamicLuminanceWeightNetwork_forward f x) = DynamicLuminanceWeightNetwork_forward f x"
proof -
  have "clamp (sigmoid z * 0.5 + 0.5) 0 5 = sigmoid z * 0.5 + 0.5" for z
    using sigmoid_bounds [of z] by (simp add: clamp_def)
  then show ?thesis
    by (simp add: clamp_weights_def DynamicLuminanceWeightNetwork_forward_def split_def)
qed

text \<open>
  Claim C4. Whatever the layers in front of the final activation compute, every output of
  \<open>DownscalingNetwork_forward\<close> lies in \<open>[1, 4]\<close>, both outputs of
  \<open>DynamicLuminanceWeightNetwork_forward\<close> lie in \<open>[0.5, 1]\<close> for every image, and the
  clamp to \<open>[0, 5]\<close> that follows in the training loop leaves them as they are.
\<close>

theorem control_outputs_bounded:
  "(\<forall>v \<in> set (DownscalingNetwork_forward pre x). 1 \<le> v \<and> v \<le> 4)
   \<and> (\<forall>(a, b) \<in> set (DynamicLuminanceWeightNetwork_forward fc4_out y).
         1/2 \<le> a \<and> a \<le> 1 \<and> 1/2 \<le> b \<and> b \<le> 1)
   \<and> clamp_weights (DynamicLuminanceWeightNetwork_forward fc4_out y)
       = DynamicLuminanceWeightNetwork_forward fc4_out y"
  using downscaling_output_bounds [of pre x] luminance_output_bounds [of fc4_out y]
        clamp_weights_identity [of fc4_out y]
  by simp

theorem control_outputs_bounded_witness:
  "DownscalingNetwork_forward (\<lambda>u::unit. [0]) () = [5/2]
   \<and> (1::real) \<le> 5/2 \<and> (5/2::real) \<le> 4
   \<and> DynamicLuminanceWeightNetwork_forward (\<lambda>u::unit. [(0, 0)]) () = [(3/4, 3/4)]
   \<and> clamp_weights (DynamicLuminanceWeightNetwork_forward (\<lambda>u::unit. [(0, 0)]) ()) = [(3/4, 3/4)]"
proof -
  have d: "DownscalingNetwork_forward (\<lambda>u::unit. [0]) () = [5/2]"
    by (simp add: DownscalingNetwork_forward_def)
  have l: "DynamicLuminanceWeightNetwork_forward (\<lambda>u::unit. [(0, 0)]) () = [(3/4, 3/4)]"
    by (simp add: DynamicLuminanceWeightNetwork_forward_def sigmoid_def)
  show ?thesis
    using control_outputs_bounded [of "\<lambda>u::unit. [0]" "()" "\<lambda>u::unit. [(0, 0)]" "()"] d l
    by simp
qed

subsection \<open>Bit-rate estimate\<close>

text \<open>
  Claim C7. The expression the scripts write, \<open>ln (\<bar>c\<bar> + 1) / ln 2\<close>, is the logarithm to
  base 2 of \<open>\<bar>c\<bar> + 1\<close> for every real \<open>c\<close>, and the tensor handed to the bit-rate
  estimator is the flattened block tensor with that function applied to every entry.
\<close>

theorem log_scale_is_log2:
  "log_scale c = log 2 (\<bar>c\<bar> + 1)
   \<and> estimator_features blocks
       = map (map (\<lambda>c. log 2 (\<bar>c\<bar> + 1))) (concat (map concat blocks))"
proof -
  have l: "log_scale = (\<lambda>c. log 2 (\<bar>c\<bar> + 1))"
    by (rule ext) (simp add: log_scale_def log_def)
  show ?thesis
    by (simp add: estimator_features_def Let_def l map_concat)
qed

theorem log_scale_is_log2_witness:
  "log_scale (- 3) = 2 \<and> estimator_features [[[[1, - 1]], [[0, 3]]]] = [[1, 1], [0, 2]]"
proof -
  have "log 2 4 = (2::real)"
    using log_nat_power [of 2 2 2] by simp
  then show ?thesis
    using log_scale_is_log2 [of "- 3" "[[[[1, - 1]], [[0, 3]]]]"] by simp
qed

lemma chunk_sums: "sum_list (map (\<lambda>i. sum_list (take p (drop (i * p) xs))) [0..<b]) = sum_list (take (b * p) xs)"
proof (induction b)
  case 0
  then show ?case by simp
next
  case (Suc b)
  have "Suc b * p = b * p + p" by simp
  then have "take (Suc b * p) xs = take (b * p) xs @ take p (drop (b * p) xs)"
    by (simp only: take_add)
  then show ?case using Suc by simp
qed

text \<open>
  Claim C6. When the estimator returns one code length for each of the \<open>B * p1\<close> blocks of
  a batch of \<open>B\<close> images, the bpp estimate is the sum of all code lengths, divided by the
  batch size (the mean over the batch of the per-image sums) and by
  \<open>C * H * W\<close>, the number of coefficients of one image.
\<close>

theorem bpp_estimate_normalised:
  assumes "0 < B" "length pred_code_len = B * p1" "0 < C * H * W"
  shows "bpp_estimate (B, C, H, W) pred_code_len
       = Some (sum_list pred_code_len / real B / real (C * H * W))"
  using chunk_sums [of p1 pred_code_len B] assms
  by (simp add: bpp_estimate_def rearrange_b_p1_def mean_def Let_def o_def)

theorem bpp_estimate_normalised_witness:
  "(0::nat) < 2 \<and> length [1, 2, 3, 4::real] = 2 * 2 \<and> (0::nat) < 1 * 2 * 2
   \<and> bpp_estimate (2, 1, 2, 2) [1, 2, 3, 4] = Some (5 / 4)"
  using bpp_estimate_normalised [of 2 "[1, 2, 3, 4]" 2 1 2 2] by simp

subsection \<open>Losses\<close>

text \<open>
  Claim C1. In every training step the combined loss is the fixed weighted sum of the step's
  bpp term and its detection loss as the loop holds it at that point (the loss function's
  result times the world size under DDP and times 4 with \<open>quad\<close>): weights 40 and 1 in
  \<open>train_losses\<close>, where the bpp term is the reciprocal of the downscaling factor (entry by
  entry, one per image; for a single image the one scalar), weights 1 and 8 in
  \<open>train2_losses\<close>. The weights are the literals of the definitions: no argument of the
  step can change them.
\<close>

theorem combined_loss_weights:
  "scale_detection_loss r w q l
     = (if q then 4 else 1) * ((if r \<noteq> - 1 then real_of_int w else 1) * l)
   \<and> dfm_bpp_loss (train_losses r w q d l) = map (\<lambda>f. 1 / f) d
   \<and> dfm_loss (train_losses r w q d l) = scale_detection_loss r w q l
   \<and> dfm_total_loss (train_losses r w q d l)
       = map (\<lambda>f. 40 * (1 / f) + scale_detection_loss r w q l) d
   \<and> dfm_total_loss (train_losses r w q d l)
       = map (\<lambda>b. 40 * b + dfm_loss (train_losses r w q d l)) (dfm_bpp_loss (train_losses r w q d l))
   \<and> dfm_total_loss (train_losses r w q [f] l) = [40 * (1 / f) + scale_detection_loss r w q l]
   \<and> dfm_total_loss (train_losses r w q [f] l)
       = [40 * (1 / f) + dfm_loss (train_losses r w q [f] l)]
   \<and> dln_bpp_loss (train2_losses r w q b l) = b
   \<and> dln_loss (train2_losses r w q b l) = scale_detection_loss r w q l
   \<and> dln_total_loss (train2_losses r w q b l) = 1 * b + 8 * scale_detection_loss r w q l
   \<and> dln_total_loss (train2_losses r w q b l)
       = 1 * dln_bpp_loss (train2_losses r w q b l) + 8 * dln_loss (train2_losses r w q b l)"
  by (simp add: train_losses_def train2_losses_def scale_detection_loss_def Let_def o_def)

theorem combined_loss_weights_witness:
  "dfm_total_loss (train_losses 0 2 True [2] 3) = [44]
   \<and> dln_total_loss (train2_losses 0 2 True (1/2) 3) = 385/2"
proof -
  note t = combined_loss_weights [of 0 2 True 3 "[2]" 2 "1/2"]
  have s: "scale_detection_loss 0 2 True 3 = 24"
    using t [THEN conjunct1] by simp
  have a: "dfm_total_loss (train_losses 0 2 True [2] 3)
      = map (\<lambda>f. 40 * (1 / f) + scale_detection_loss 0 2 True 3) [2]"
    by (rule t [THEN conjunct2, THEN conjunct2, THEN conjunct2, THEN conjunct1])
  have b: "dln_total_loss (train2_losses 0 2 True (1/2) 3)
      = 1 * (1/2) + 8 * scale_detection_loss 0 2 True 3"
    using t by blast
  show ?thesis unfolding a b s by simp
qed

subsection \<open>Backward passes\<close>













subsection \<open>Frozen parameters\<close>

lemma same_frozen_refl: "same_frozen s s"
  by (simp add: same_frozen_def)

lemma same_frozen_trans: "same_frozen s t \<Longrightarrow> same_frozen t u \<Longrightarrow> same_frozen s u"
  by (simp add: same_frozen_def)

lemma backward_grads_frozen:
  "frozen_ready s \<Longrightarrow>
   frozen_ready (backward_grads ag l sc s) \<and> same_frozen s (backward_grads ag l sc s)"
  by (auto simp: frozen_ready_def same_frozen_def backward_grads_def option.map_comp o_def
           intro!: option.map_cong)

lemma unscale_grads_frozen:
  "frozen_ready s \<Longrightarrow>
   frozen_ready (unscale_grads ag g n s) \<and> same_frozen s (unscale_grads ag g n s)"
  by (auto simp: frozen_ready_def same_frozen_def unscale_grads_def option.map_comp o_def
           intro!: option.map_cong)

lemma clip_grads_frozen:
  "frozen_ready s \<Longrightarrow> frozen_ready (clip_grads ag n s) \<and> same_frozen s (clip_grads ag n s)"
  by (auto simp: frozen_ready_def same_frozen_def clip_grads_def option.map_comp o_def
           intro!: option.map_cong)

lemma zero_grads_frozen:
  "frozen_ready s \<Longrightarrow> frozen_ready (zero_grads ag n s) \<and> same_frozen s (zero_grads ag n s)"
  by (auto simp: frozen_ready_def same_frozen_def zero_grads_def option.map_comp o_def
           intro!: option.map_cong)

lemma optimizer_step_frozen:
  "frozen_ready s \<Longrightarrow>
   frozen_ready (optimizer_step ag n s) \<and> same_frozen s (optimizer_step ag n s)"
  by (cases n)
     (auto simp: frozen_ready_def same_frozen_def frozen_owner_def in_optimizer_def
           optimizer_step_def option.map_comp o_def split: option.splits
           intro!: option.map_cong)

lemma scaler_step_frozen:
  assumes "frozen_ready s"
  shows "frozen_ready (if c then s else optimizer_step ag n s)
       \<and> same_frozen s (if c then s else optimizer_step ag n s)"
  using assms optimizer_step_frozen [OF assms, of ag n] by (simp add: same_frozen_refl)

lemma exec_op_frozen:
  assumes "exec_op ag x st = Inr st'" "frozen_ready (params st)"
  shows "frozen_ready (params st') \<and> same_frozen (params st) (params st')"
proof (cases x)
  case (Backward l scaled retain)
  then show ?thesis using assms backward_grads_frozen [OF assms(2)] by auto
next
  case (Unscale n)
  then show ?thesis
    using assms unscale_grads_frozen [OF assms(2)]
    by (auto simp: same_frozen_refl split: if_splits stage.splits)
next
  case (ClipGradNorm n)
  then show ?thesis using assms clip_grads_frozen [OF assms(2)] by auto
next
  case (OptimizerStep n via_scaler)
  let ?u = "unscale_grads ag (scale_gen st) n (params st)"
  have u: "frozen_ready ?u" "same_frozen (params st) ?u"
    using unscale_grads_frozen [OF assms(2)] by simp_all
  have ou: "frozen_ready (optimizer_step ag n ?u)"
      "same_frozen (params st) (optimizer_step ag n ?u)"
    using optimizer_step_frozen [OF u(1), of ag n] same_frozen_trans [OF u(2)] by blast+
  have o: "frozen_ready (optimizer_step ag n (params st))"
      "same_frozen (params st) (optimizer_step ag n (params st))"
    using optimizer_step_frozen [OF assms(2), of ag n] by simp_all
  show ?thesis
    using assms OptimizerStep u ou o
    by (auto simp: Let_def same_frozen_refl split: if_splits stage.splits)
next
  case ScalerUpdate
  then show ?thesis using assms by (auto simp: same_frozen_refl split: if_splits)
next
  case (ZeroGrad n)
  then show ?thesis using assms zero_grads_frozen [OF assms(2)] by auto
next
  case EmaUpdate
  then show ?thesis using assms by (auto simp: same_frozen_refl)
qed

lemma exec_ops_frozen:
  "exec_ops ag xs st = Inr st' \<Longrightarrow> frozen_ready (params st) \<Longrightarrow>
   frozen_ready (params st') \<and> same_frozen (params st) (params st')"
proof (induction xs arbitrary: st)
  case Nil
  then show ?case by (auto simp: same_frozen_refl)
next
  case (Cons x xs)
  obtain st1 where 1: "exec_op ag x st = Inr st1" "exec_ops ag xs st1 = Inr st'"
    using Cons.prems(1) by (cases "exec_op ag x st") auto
  have 2: "frozen_ready (params st1)" "same_frozen (params st) (params st1)"
    using exec_op_frozen [OF 1(1) Cons.prems(2)] by simp_all
  have 3: "frozen_ready (params st')" "same_frozen (params st1) (params st')"
    using Cons.IH [OF 1(2) 2(1)] by simp_all
  show ?case using 3(1) same_frozen_trans [OF 2(2) 3(2)] by simp
qed

lemma train_step_runs:
  "all_ready st \<Longrightarrow>
   \<exists>st'. exec_ops ag (fst (train_step_ops ni lo acc ema)) st = Inr st' \<and> all_ready st'"
  by (auto simp: train_step_ops_def all_ready_def Let_def)

lemma train2_step_runs:
  "all_ready st \<Longrightarrow>
   \<exists>st'. exec_ops ag (fst (train2_step_ops ni lo acc ema)) st = Inr st' \<and> all_ready st'"
  by (auto simp: train2_step_ops_def all_ready_def Let_def)

lemma run_steps_frozen:
  fixes st :: "'v train_state"
  assumes runs: "\<And>ni lo acc (ag :: 'v autograd) (st :: 'v train_state). all_ready st \<Longrightarrow>
      \<exists>st'. exec_ops ag (fst (step ni lo acc ema)) st = Inr st' \<and> all_ready st'"
  shows "all_ready st \<Longrightarrow> frozen_ready (params st) \<Longrightarrow>
    \<exists>st'. run_steps step ema inputs lo st = Inr st' \<and> all_ready st'
       \<and> frozen_ready (params st') \<and> same_frozen (params st) (params st')"
proof (induction inputs arbitrary: st lo)
  case Nil
  then show ?case by (simp add: same_frozen_refl)
next
  case (Cons inp rest)
  obtain ni acc ag where inp: "inp = (ni, acc, ag)" by (cases inp) auto
  obtain ops lo' where sp: "step ni lo acc ema = (ops, lo')" by (cases "step ni lo acc ema") auto
  obtain st1 where 1: "exec_ops ag ops st = Inr st1" "all_ready st1"
    using runs [OF Cons.prems(1), of ag ni lo acc] sp by auto
  have 2: "frozen_ready (params st1)" "same_frozen (params st) (params st1)"
    using exec_ops_frozen [OF 1(1) Cons.prems(2)] by simp_all
  obtain st' where 3: "run_steps step ema rest lo' st1 = Inr st'" "all_ready st'"
      "frozen_ready (params st')" "same_frozen (params st1) (params st')"
    using Cons.IH [OF 1(2) 2(1), of lo'] by blast
  show ?case
    using 3 same_frozen_trans [OF 2(2) 3(4)] by (simp add: inp sp 1(1))
qed

lemma freeze_train_ready: "fresh_grads s \<Longrightarrow> frozen_ready (freeze_train fl s)"
  by (auto simp: fresh_grads_def frozen_ready_def freeze_train_def)

lemma freeze_train2_ready: "fresh_grads s \<Longrightarrow> frozen_ready (freeze_train2 fl s)"
  by (auto simp: fresh_grads_def frozen_ready_def freeze_train2_def)

text \<open>
  Claim C5. Start from parameters that carry no gradient and set the flags as either script
  does. Then any number of training steps runs through without an error of the gradient
  scaler and, whatever numbers the framework computes, every parameter of the control
  network's feature extractor and of the bit-rate estimator has the value it had before:
  only head and detector parameters can have changed.
\<close>

theorem frozen_parameters_unchanged:
  assumes "fresh_grads s0"
  shows "(\<exists>st'. run_steps train_step_ops ema inputs lo (initial_state (freeze_train fl s0)) = Inr st'
            \<and> same_frozen (freeze_train fl s0) (params st'))
       \<and> (\<exists>st'. run_steps train2_step_ops ema inputs lo (initial_state (freeze_train2 fl s0))
              = Inr st'
            \<and> same_frozen (freeze_train2 fl s0) (params st'))"
proof -
  have r: "all_ready (initial_state s)" for s :: "'a store"
    by (simp add: all_ready_def initial_state_def)
  have p: "params (initial_state s) = s" for s :: "'a store"
    by (simp add: initial_state_def)
  have 1: "frozen_ready (params (initial_state (freeze_train fl s0)))"
    using freeze_train_ready [OF assms] by (simp add: p)
  have 2: "frozen_ready (params (initial_state (freeze_train2 fl s0)))"
    using freeze_train2_ready [OF assms] by (simp add: p)
  show ?thesis
    using run_steps_frozen [of train_step_ops ema, OF train_step_runs r 1, of inputs lo]
          run_steps_frozen [of train2_step_ops ema, OF train2_step_runs r 2, of inputs lo]
    by (auto simp: p)
qed

theorem frozen_parameters_unchanged_witness:
  "fresh_grads example_store
   \<and> (\<exists>st'. run_steps train2_step_ops True [(0, 1, example_autograd)] (- 1)
            (initial_state (freeze_train2 (\<lambda>i. False) example_store)) = Inr st'
          \<and> map_option pvalue (params st' (BitEstimator, 0)) = Some 10)
   \<and> (\<exists>st'. run_steps train_step_ops True [(0, 1, example_autograd)] (- 1)
            (initial_state (freeze_train (\<lambda>i. False) example_store)) = Inr st'
          \<and> map_option pvalue (params st' (ControlBackbone, 0)) = Some 10)"
proof -
  have f: "fresh_grads example_store"
    by (simp add: fresh_grads_def example_store_def)
  have v: "map_option pvalue (freeze_train2 (\<lambda>i. False) example_store (BitEstimator, 0)) = Some 10"
      "map_option pvalue (freeze_train (\<lambda>i. False) example_store (ControlBackbone, 0)) = Some 10"
    by (simp_all add: freeze_train2_def freeze_train_def example_store_def)
  note t = frozen_parameters_unchanged [OF f, of True "[(0, 1, example_autograd)]" "- 1"
      "\<lambda>i. False"]
  obtain st1 where 1: "run_steps train_step_ops True [(0, 1, example_autograd)] (- 1)
        (initial_state (freeze_train (\<lambda>i. False) example_store)) = Inr st1"
      "same_frozen (freeze_train (\<lambda>i. False) example_store) (params st1)"
    using t by blast
  obtain st2 where 2: "run_steps train2_step_ops True [(0, 1, example_autograd)] (- 1)
        (initial_state (freeze_train2 (\<lambda>i. False) example_store)) = Inr st2"
      "same_frozen (freeze_train2 (\<lambda>i. False) example_store) (params st2)"
    using t by blast
  have a: "map_option pvalue (params st1 (ControlBackbone, 0)) = Some 10"
    using 1(2) v(2) by (simp add: same_frozen_def frozen_owner_def)
  have b: "map_option pvalue (params st2 (BitEstimator, 0)) = Some 10"
    using 2(2) v(1) by (simp add: same_frozen_def frozen_owner_def)
  show ?thesis using f 1(1) 2(1) a b by blast
qed

subsection \<open>Checkpoints without a control-network entry\<close>

text \<open>
  Claim C8, as the specification states it, fails: with no control-network entry in the
  checkpoint, neither script logs a warning. The one record written is the info-level
  report of the detector items transferred.
\<close>

theorem missing_entry_warning_counterexample:
  "load_downscaling_network any_state_dict_fits checkpoint_without_entry 0 5 7 ''yolov5s.pt''
     = Inr (0, [(Info, Transferred 5 7 ''yolov5s.pt'')])
   \<and> load_dynamic_luminance_network any_state_dict_fits checkpoint_without_entry 0 5 7
       ''yolov5s.pt''
     = Inr (0, [(Info, Transferred 5 7 ''yolov5s.pt'')])
   \<and> \<not> logs_warning [(Info, Transferred 5 7 ''yolov5s.pt'')]"
  by (simp add: load_downscaling_network_def load_dynamic_luminance_network_def logs_warning_def
      checkpoint_without_entry_def)

text \<open>
  Claim C8, amended. With no control-network entry in the checkpoint, setup does not fail
  and the control network keeps its freshly initialised weights; no warning is logged, the
  only record being the info-level report of the detector items transferred. With an entry
  whose state dict fits the network, the stored state dict is loaded, again without a
  warning.
\<close>

theorem missing_entry_falls_back:
  "(ckpt ''downscaling_network'' = None \<longrightarrow>
      load_downscaling_network fits ckpt fresh n m w = Inr (fresh, [(Info, Transferred n m w)]))
   \<and> (ckpt ''dynamic_luminance_network'' = None \<longrightarrow>
      load_dynamic_luminance_network fits ckpt fresh n m w
        = Inr (fresh, [(Info, Transferred n m w)]))
   \<and> \<not> logs_warning [(Info, Transferred n m w)]
   \<and> (ckpt ''downscaling_network'' = Some sd \<and> fits sd \<longrightarrow>
      (\<exists>l. load_downscaling_network fits ckpt fresh n m w = Inr (sd, l) \<and> \<not> logs_warning l))
   \<and> (ckpt ''dynamic_luminance_network'' = Some sd \<and> fits sd \<longrightarrow>
      (\<exists>l. load_dynamic_luminance_network fits ckpt fresh n m w = Inr (sd, l)
           \<and> \<not> logs_warning l))"
  by (simp add: load_downscaling_network_def load_dynamic_luminance_network_def
      load_state_dict_def logs_warning_def)

theorem missing_entry_falls_back_witness:
  "load_downscaling_network (\<lambda>sd. True) (\<lambda>k. None) (1::nat) 5 7 ''yolov5s.pt''
      = Inr (1, [(Info, Transferred 5 7 ''yolov5s.pt'')])
   \<and> (\<exists>l. load_dynamic_luminance_network (\<lambda>sd. sd = 3)
            [''dynamic_luminance_network'' \<mapsto> 3] (1::nat) 5 7 ''last.pt'' = Inr (3, l))"
  using missing_entry_falls_back [of "\<lambda>k. None" "\<lambda>sd. True" "1::nat" 5 7 "''yolov5s.pt''"]
        missing_entry_falls_back [of "[''dynamic_luminance_network'' \<mapsto> 3]" "\<lambda>sd. sd = 3"
          "1::nat" 5 7 "''last.pt''" 3]
  by auto

end
